theory Spec2Isabelle
  imports Complex_Main "HOL-Library.Word"
begin

section \<open>Classification metrics from a confusion matrix\<close>

text \<open>
  A shallow embedding of \<^verbatim>\<open>calculate_classification_metrics\<close> of
  \<^verbatim>\<open>scripts/precision_recall.py\<close>, the function the specification calls
  \<^verbatim>\<open>compute\<close>.

  The source works on a numpy array of integers. Its entries, and every integer that
  the function computes from them, are numpy's 64-bit integers: they are words of 64
  bits, read as signed numbers, and sums, differences and products wrap around as
  numpy's do. The floating-point results are modelled as real numbers, each float64
  operation by the exact operation on the reals, so rounding is outside the model.
  What numpy does instead of raising is kept: a division by zero of numpy scalars
  yields \<^verbatim>\<open>nan\<close> or an infinity, the square root of a negative number yields
  \<^verbatim>\<open>nan\<close>, and both travel through the later arithmetic. The exceptions that the
  source can raise are values of the type \<open>error\<close>.
\<close>

subsection \<open>numpy scalars and exceptions\<close>

datatype error = ValueError | AxisError | IndexError | TypeError | ZeroDivisionError

datatype npfloat = Fin real | PInf | NInf | NaN

text \<open>\<^verbatim>\<open>np.int64\<close>, and its conversion to a float.\<close>

type_synonym int64 = "64 word"

definition fl :: "int64 \<Rightarrow> npfloat" where
  "fl i = Fin (real_of_int (sint i))"

fun np_add :: "npfloat \<Rightarrow> npfloat \<Rightarrow> npfloat" where
  "np_add (Fin a) (Fin b) = Fin (a + b)"
| "np_add NaN _ = NaN"
| "np_add _ NaN = NaN"
| "np_add PInf NInf = NaN"
| "np_add NInf PInf = NaN"
| "np_add PInf _ = PInf"
| "np_add _ PInf = PInf"
| "np_add NInf _ = NInf"
| "np_add _ NInf = NInf"

definition np_neg :: "npfloat \<Rightarrow> npfloat" where
  "np_neg x = (case x of Fin a \<Rightarrow> Fin (- a) | PInf \<Rightarrow> NInf | NInf \<Rightarrow> PInf | NaN \<Rightarrow> NaN)"

definition inf_of_sign :: "real \<Rightarrow> npfloat" where
  "inf_of_sign a = (if a = 0 then NaN else if 0 < a then PInf else NInf)"

fun np_mul :: "npfloat \<Rightarrow> npfloat \<Rightarrow> npfloat" where
  "np_mul (Fin a) (Fin b) = Fin (a * b)"
| "np_mul NaN _ = NaN"
| "np_mul _ NaN = NaN"
| "np_mul PInf (Fin b) = inf_of_sign b"
| "np_mul (Fin a) PInf = inf_of_sign a"
| "np_mul NInf (Fin b) = np_neg (inf_of_sign b)"
| "np_mul (Fin a) NInf = np_neg (inf_of_sign a)"
| "np_mul PInf PInf = PInf"
| "np_mul NInf NInf = PInf"
| "np_mul PInf NInf = NInf"
| "np_mul NInf PInf = NInf"

text \<open>
  True division of numpy scalars: no exception, \<^verbatim>\<open>0/0\<close> is \<^verbatim>\<open>nan\<close> and
  \<^verbatim>\<open>x/0\<close> an infinity of the sign of \<^verbatim>\<open>x\<close> (every zero divisor of the
  source is the float of an \<^verbatim>\<open>int64\<close> zero, hence a positive zero).
\<close>

fun np_div :: "npfloat \<Rightarrow> npfloat \<Rightarrow> npfloat" where
  "np_div (Fin a) (Fin b) = (if b = 0 then inf_of_sign a else Fin (a / b))"
| "np_div NaN _ = NaN"
| "np_div _ NaN = NaN"
| "np_div (Fin a) PInf = Fin 0"
| "np_div (Fin a) NInf = Fin 0"
| "np_div PInf (Fin b) = (if 0 \<le> b then PInf else NInf)"
| "np_div NInf (Fin b) = (if 0 \<le> b then NInf else PInf)"
| "np_div PInf PInf = NaN"
| "np_div PInf NInf = NaN"
| "np_div NInf PInf = NaN"
| "np_div NInf NInf = NaN"

definition np_sqrt :: "int64 \<Rightarrow> npfloat" where
  "np_sqrt i = (if sint i < 0 then NaN else Fin (sqrt (real_of_int (sint i))))"

text \<open>\<^verbatim>\<open>x > 0\<close> on a float: false for \<^verbatim>\<open>nan\<close>.\<close>

definition np_pos :: "npfloat \<Rightarrow> bool" where
  "np_pos x = (case x of Fin a \<Rightarrow> 0 < a | PInf \<Rightarrow> True | NInf \<Rightarrow> False | NaN \<Rightarrow> False)"

text \<open>\<^verbatim>\<open>x != 0\<close> on a float: true for \<^verbatim>\<open>nan\<close> and the infinities.\<close>

definition np_nonzero :: "npfloat \<Rightarrow> bool" where
  "np_nonzero x = (x \<noteq> Fin 0)"

subsection \<open>numpy arrays\<close>

text \<open>
  The argument is a nested list of integers that fit in 64 bits (or an array of
  them); integers beyond 64 bits, for which numpy takes another element type, are
  excluded by the type. \<^verbatim>\<open>np.array\<close> refuses rows of different lengths with a
  \<^verbatim>\<open>ValueError\<close> (numpy 1.24 and later); the empty list becomes a one-dimensional
  array of length 0, which is the list \<open>[]\<close> here, and a list of \<open>r\<close> rows of \<open>c\<close>
  entries becomes an \<^verbatim>\<open>int64\<close> array of shape \<open>(r, c)\<close>.
\<close>

type_synonym ndarray = "int64 list list"

definition ncols :: "'a list list \<Rightarrow> nat" where
  "ncols cm = (case cm of [] \<Rightarrow> 0 | r # _ \<Rightarrow> length r)"

definition np_array :: "int64 list list \<Rightarrow> error + ndarray" where
  "np_array confusion_matrix =
     (if list_all (\<lambda>r. length r = ncols confusion_matrix) confusion_matrix
      then Inr confusion_matrix else Inl ValueError)"

text \<open>\<^verbatim>\<open>cm[i, j]\<close>: an \<^verbatim>\<open>IndexError\<close> outside the shape.\<close>

definition cm_get :: "ndarray \<Rightarrow> nat \<Rightarrow> nat \<Rightarrow> error + int64" where
  "cm_get cm i j = (if i < length cm \<and> j < ncols cm then Inr (cm ! i ! j) else Inl IndexError)"

text \<open>\<^verbatim>\<open>np.sum(cm)\<close>: an \<^verbatim>\<open>int64\<close>, the sum wraps.\<close>

definition np_sum_all :: "ndarray \<Rightarrow> int64" where
  "np_sum_all cm = sum_list (concat cm)"

text \<open>\<^verbatim>\<open>np.sum(cm, axis=1)\<close>: a one-dimensional array has no axis 1; the row sums
  are \<^verbatim>\<open>int64\<close> and wrap.\<close>

definition np_sum_axis1 :: "ndarray \<Rightarrow> error + int64 list" where
  "np_sum_axis1 cm = (if cm = [] then Inl AxisError else Inr (map sum_list cm))"

text \<open>\<^verbatim>\<open>np.trace(cm)\<close>: the diagonal stops at the shorter side; an \<^verbatim>\<open>int64\<close>, the
  sum wraps.\<close>

definition np_trace :: "ndarray \<Rightarrow> int64" where
  "np_trace cm = (\<Sum>i \<leftarrow> [0..<min (length cm) (ncols cm)]. cm ! i ! i)"

text \<open>\<^verbatim>\<open>np.sum(cm[:, j])\<close> and \<^verbatim>\<open>np.sum(cm[i, :])\<close>, read after \<^verbatim>\<open>cm[i, i]\<close>
  and \<^verbatim>\<open>cm[j, j]\<close> succeeded, so that the index is inside the shape.\<close>

definition column_sum :: "ndarray \<Rightarrow> nat \<Rightarrow> int64" where
  "column_sum cm j = (\<Sum>r \<leftarrow> cm. r ! j)"

definition row_sum :: "ndarray \<Rightarrow> nat \<Rightarrow> int64" where
  "row_sum cm i = sum_list (cm ! i)"

text \<open>Sum of a float array: the exact sum, as the order in which numpy adds and the
  rounding of each addition are outside the model.\<close>

definition np_fsum :: "npfloat list \<Rightarrow> npfloat" where
  "np_fsum xs = foldl np_add (Fin 0) xs"

text \<open>\<^verbatim>\<open>np.mean\<close>\<close>

definition np_mean :: "npfloat list \<Rightarrow> npfloat" where
  "np_mean xs = np_div (np_fsum xs) (Fin (real (length xs)))"

text \<open>
  \<^verbatim>\<open>np.average(a, weights=w)\<close>: a \<^verbatim>\<open>TypeError\<close> when the shapes differ, a
  \<^verbatim>\<open>ZeroDivisionError\<close> when the weights sum to zero, else the sum of the
  products over the sum of the weights. numpy converts the \<^verbatim>\<open>int64\<close> weights to
  floats before it adds them, so this sum does not wrap.
\<close>

definition np_average :: "npfloat list \<Rightarrow> int64 list \<Rightarrow> error + npfloat" where
  "np_average a weights =
     (if length a \<noteq> length weights then Inl TypeError
      else let scl = (\<Sum>w \<leftarrow> weights. real_of_int (sint w)) in
        if scl = 0 then Inl ZeroDivisionError
        else Inr (np_div (np_fsum (map2 np_mul a (map fl weights))) (Fin scl)))"

subsection \<open>The result dictionary\<close>

record per_class_metrics =
  precision :: "npfloat list"
  recall :: "npfloat list"
  f1_score :: "npfloat list"
  balanced_accuracy :: "npfloat list"
  weighted_accuracy :: "npfloat list"
  mcc :: "npfloat list"

record overall_metrics =
  accuracy :: npfloat
  macro_precision :: npfloat
  macro_recall :: npfloat
  macro_f1_score :: npfloat
  macro_balanced_accuracy :: npfloat
  macro_weighted_accuracy :: npfloat
  macro_mcc :: npfloat
  weighted_precision :: npfloat
  weighted_recall :: npfloat
  weighted_f1_score :: npfloat
  weighted_balanced_accuracy :: npfloat
  weighted_weighted_accuracy :: npfloat
  weighted_mcc :: npfloat

record metrics =
  per_class :: per_class_metrics
  overall :: overall_metrics

definition empty_per_class :: per_class_metrics where
  "empty_per_class = \<lparr>precision = [], recall = [], f1_score = [], balanced_accuracy = [],
     weighted_accuracy = [], mcc = []\<rparr>"

subsection \<open>The loop over the classes\<close>

text \<open>The six values that one iteration of the loop appends. The four counts are
  \<^verbatim>\<open>int64\<close> scalars: their sums and products wrap, and \<^verbatim>\<open>> 0\<close> compares them
  as signed numbers.\<close>

record class_scores =
  precision_c :: npfloat
  recall_c :: npfloat
  f1_c :: npfloat
  balanced_accuracy_c :: npfloat
  weighted_accuracy_c :: npfloat
  mcc_c :: npfloat

definition scores :: "int64 \<Rightarrow> int64 \<Rightarrow> int64 \<Rightarrow> int64 \<Rightarrow> class_scores" where
  "scores tp fp fn tn =
     (let precision' = (if sint (tp + fp) > 0 then np_div (fl tp) (fl (tp + fp)) else Fin 0);
          recall' = (if sint (tp + fn) > 0 then np_div (fl tp) (fl (tp + fn)) else Fin 0);
          f1 = (if np_pos (np_add precision' recall')
                then np_div (np_mul (Fin 2) (np_mul precision' recall')) (np_add precision' recall')
                else Fin 0);
          sensitivity = (if sint (tp + fn) > 0 then np_div (fl tp) (fl (tp + fn)) else Fin 0);
          specificity = (if sint (tn + fp) > 0 then np_div (fl tn) (fl (tn + fp)) else Fin 0);
          balanced_accuracy' = np_div (np_add sensitivity specificity) (Fin 2);
          weighted_accuracy' = np_div (fl (tp + tn)) (fl (tp + tn + fp + fn));
          mcc_denominator = np_sqrt ((tp + fp) * (tp + fn) * (tn + fp) * (tn + fn));
          mcc' = (if np_nonzero mcc_denominator
                  then np_div (fl ((tp * tn) - (fp * fn))) mcc_denominator else Fin 0)
      in \<lparr>precision_c = precision', recall_c = recall', f1_c = f1,
          balanced_accuracy_c = balanced_accuracy', weighted_accuracy_c = weighted_accuracy',
          mcc_c = mcc'\<rparr>)"

text \<open>One iteration: the four counts of the class, then its scores.\<close>

definition class_scores_at :: "ndarray \<Rightarrow> int64 \<Rightarrow> nat \<Rightarrow> error + class_scores" where
  "class_scores_at cm total_samples class_idx =
     (case cm_get cm class_idx class_idx of
        Inl e \<Rightarrow> Inl e
      | Inr tp \<Rightarrow>
          let fp = column_sum cm class_idx - tp;
              fn = row_sum cm class_idx - tp;
              tn = total_samples - (tp + fp + fn)
          in Inr (scores tp fp fn tn))"

definition append_scores :: "per_class_metrics \<Rightarrow> class_scores \<Rightarrow> per_class_metrics" where
  "append_scores pc s =
     \<lparr>precision = precision pc @ [precision_c s],
      recall = recall pc @ [recall_c s],
      f1_score = f1_score pc @ [f1_c s],
      balanced_accuracy = balanced_accuracy pc @ [balanced_accuracy_c s],
      weighted_accuracy = weighted_accuracy pc @ [weighted_accuracy_c s],
      mcc = mcc pc @ [mcc_c s]\<rparr>"

fun class_loop :: "ndarray \<Rightarrow> int64 \<Rightarrow> nat list \<Rightarrow> per_class_metrics \<Rightarrow> error + per_class_metrics" where
  "class_loop cm total_samples [] pc = Inr pc"
| "class_loop cm total_samples (class_idx # rest) pc =
     (case class_scores_at cm total_samples class_idx of
        Inl e \<Rightarrow> Inl e
      | Inr s \<Rightarrow> class_loop cm total_samples rest (append_scores pc s))"

subsection \<open>The function\<close>

text \<open>The six weighted averages, in the order of the source; the first that
  raises ends the call.\<close>

definition weighted_averages ::
  "per_class_metrics \<Rightarrow> int64 list \<Rightarrow> error + (npfloat \<times> npfloat \<times> npfloat \<times> npfloat \<times> npfloat \<times> npfloat)" where
  "weighted_averages pc class_samples =
     (case np_average (precision pc) class_samples of Inl e \<Rightarrow> Inl e | Inr avg_p \<Rightarrow>
      case np_average (recall pc) class_samples of Inl e \<Rightarrow> Inl e | Inr avg_r \<Rightarrow>
      case np_average (f1_score pc) class_samples of Inl e \<Rightarrow> Inl e | Inr avg_f \<Rightarrow>
      case np_average (balanced_accuracy pc) class_samples of Inl e \<Rightarrow> Inl e | Inr avg_b \<Rightarrow>
      case np_average (weighted_accuracy pc) class_samples of Inl e \<Rightarrow> Inl e | Inr avg_w \<Rightarrow>
      case np_average (mcc pc) class_samples of Inl e \<Rightarrow> Inl e | Inr avg_m \<Rightarrow>
        Inr (avg_p, avg_r, avg_f, avg_b, avg_w, avg_m))"

definition calculate_classification_metrics :: "int64 list list \<Rightarrow> error + metrics" where
  "calculate_classification_metrics confusion_matrix =
     (case np_array confusion_matrix of Inl e \<Rightarrow> Inl e | Inr cm \<Rightarrow>
      let num_classes = length cm;
          total_samples = np_sum_all cm
      in
      case np_sum_axis1 cm of Inl e \<Rightarrow> Inl e | Inr class_samples \<Rightarrow>
      let correct_predictions = np_trace cm;
          accuracy' = np_div (fl correct_predictions) (fl total_samples)
      in
      case class_loop cm total_samples [0..<num_classes] empty_per_class of
        Inl e \<Rightarrow> Inl e
      | Inr pc \<Rightarrow>
      case weighted_averages pc class_samples of
        Inl e \<Rightarrow> Inl e
      | Inr (avg_p, avg_r, avg_f, avg_b, avg_w, avg_m) \<Rightarrow>
          Inr \<lparr>per_class = pc,
               overall = \<lparr>accuracy = accuracy',
                 macro_precision = np_mean (precision pc),
                 macro_recall = np_mean (recall pc),
                 macro_f1_score = np_mean (f1_score pc),
                 macro_balanced_accuracy = np_mean (balanced_accuracy pc),
                 macro_weighted_accuracy = np_mean (weighted_accuracy pc),
                 macro_mcc = np_mean (mcc pc),
                 weighted_precision = avg_p,
                 weighted_recall = avg_r,
                 weighted_f1_score = avg_f,
                 weighted_balanced_accuracy = avg_b,
                 weighted_weighted_accuracy = avg_w,
                 weighted_mcc = avg_m\<rparr>\<rparr>)"

subsection \<open>Shapes and the loop in closed form\<close>

text \<open>The nested lists that \<^verbatim>\<open>np.array\<close> accepts, the square ones, and the ones
  whose entries are counts (non-negative as signed numbers).\<close>

definition rectangular :: "'a list list \<Rightarrow> bool" where
  "rectangular m = list_all (\<lambda>r. length r = ncols m) m"

definition square :: "'a list list \<Rightarrow> bool" where
  "square m = list_all (\<lambda>r. length r = length m) m"

definition nonneg :: "int64 list list \<Rightarrow> bool" where
  "nonneg m = list_all (list_all (\<lambda>x. 0 \<le> sint x)) m"

text \<open>The scores of class \<open>c\<close> when \<open>c\<close> is inside the shape: lines 74 to 105 of
  the source without the bounds check of \<^verbatim>\<open>cm[c, c]\<close>.\<close>

definition scores_of :: "ndarray \<Rightarrow> nat \<Rightarrow> class_scores" where
  "scores_of cm c =
     (let tp = cm ! c ! c;
          fp = column_sum cm c - tp;
          fn = row_sum cm c - tp;
          tn = np_sum_all cm - (tp + fp + fn)
      in scores tp fp fn tn)"

text \<open>What the loop leaves in the six lists, and what the averaging then stores.\<close>

definition per_class_of :: "ndarray \<Rightarrow> per_class_metrics" where
  "per_class_of cm =
     \<lparr>precision = map (\<lambda>c. precision_c (scores_of cm c)) [0..<length cm],
      recall = map (\<lambda>c. recall_c (scores_of cm c)) [0..<length cm],
      f1_score = map (\<lambda>c. f1_c (scores_of cm c)) [0..<length cm],
      balanced_accuracy = map (\<lambda>c. balanced_accuracy_c (scores_of cm c)) [0..<length cm],
      weighted_accuracy = map (\<lambda>c. weighted_accuracy_c (scores_of cm c)) [0..<length cm],
      mcc = map (\<lambda>c. mcc_c (scores_of cm c)) [0..<length cm]\<rparr>"

text \<open>The sum of the weights of the weighted averages: the \<^verbatim>\<open>int64\<close> row sums, added
  as floats.\<close>

definition weights_total :: "ndarray \<Rightarrow> real" where
  "weights_total cm = (\<Sum>w \<leftarrow> map sum_list cm. real_of_int (sint w))"

definition weighted_of :: "ndarray \<Rightarrow> npfloat list \<Rightarrow> npfloat" where
  "weighted_of cm xs =
     np_div (np_fsum (map2 np_mul xs (map fl (map sum_list cm)))) (Fin (weights_total cm))"

definition overall_of :: "ndarray \<Rightarrow> overall_metrics" where
  "overall_of cm =
     \<lparr>accuracy = np_div (fl (np_trace cm)) (fl (np_sum_all cm)),
      macro_precision = np_mean (precision (per_class_of cm)),
      macro_recall = np_mean (recall (per_class_of cm)),
      macro_f1_score = np_mean (f1_score (per_class_of cm)),
      macro_balanced_accuracy = np_mean (balanced_accuracy (per_class_of cm)),
      macro_weighted_accuracy = np_mean (weighted_accuracy (per_class_of cm)),
      macro_mcc = np_mean (mcc (per_class_of cm)),
      weighted_precision = weighted_of cm (precision (per_class_of cm)),
      weighted_recall = weighted_of cm (recall (per_class_of cm)),
      weighted_f1_score = weighted_of cm (f1_score (per_class_of cm)),
      weighted_balanced_accuracy = weighted_of cm (balanced_accuracy (per_class_of cm)),
      weighted_weighted_accuracy = weighted_of cm (weighted_accuracy (per_class_of cm)),
      weighted_mcc = weighted_of cm (mcc (per_class_of cm))\<rparr>"

subsection \<open>The entries as unbounded integers\<close>

text \<open>
  The matrix of the signed values of the entries, and the sums that the
  specification speaks of, on unbounded integers: the total, the sum of a row, the sum
  of a column, the trace, and for class \<open>c\<close> the product
  \<open>(tp + fp) * (tp + fn) * (tn + fp) * (tn + fn)\<close> under the square root of the mcc.
\<close>

definition ints :: "int64 list list \<Rightarrow> int list list" where
  "ints m = map (map sint) m"

definition nonneg_ints :: "int list list \<Rightarrow> bool" where
  "nonneg_ints z = list_all (list_all (\<lambda>x. 0 \<le> x)) z"

definition exact_total :: "int list list \<Rightarrow> int" where
  "exact_total z = sum_list (concat z)"

definition exact_trace :: "int list list \<Rightarrow> int" where
  "exact_trace z = (\<Sum>i \<leftarrow> [0..<min (length z) (ncols z)]. z ! i ! i)"

definition exact_column_sum :: "int list list \<Rightarrow> nat \<Rightarrow> int" where
  "exact_column_sum z j = (\<Sum>r \<leftarrow> z. r ! j)"

definition exact_row_sum :: "int list list \<Rightarrow> nat \<Rightarrow> int" where
  "exact_row_sum z i = sum_list (z ! i)"

definition exact_radicand :: "int list list \<Rightarrow> nat \<Rightarrow> int" where
  "exact_radicand z c =
     (let tp = z ! c ! c;
          fp = exact_column_sum z c - tp;
          fn = exact_row_sum z c - tp;
          tn = exact_total z - (tp + fp + fn)
      in (tp + fp) * (tp + fn) * (tn + fp) * (tn + fn))"

text \<open>
  For a matrix of counts: no \<^verbatim>\<open>int64\<close> value of the function wraps. The total of the
  entries and, for each class, the product under the square root of the mcc are below
  \<open>2 ^ 63\<close>; every other integer that the function computes from counts lies between
  0 and one of these. A matrix of counts with a total of at most 55108 is of this
  kind.
\<close>

definition no_wrap :: "int64 list list \<Rightarrow> bool" where
  "no_wrap m =
     (exact_total (ints m) < 2 ^ 63 \<and>
      list_all (\<lambda>c. exact_radicand (ints m) c < 2 ^ 63) [0..<length m])"

subsection \<open>The reference algorithm of the specification\<close>

text \<open>Steps 5 to 11 of section 4.1 of the specification, on real numbers.\<close>

definition precision_of :: "real \<Rightarrow> real \<Rightarrow> real" where
  "precision_of tp fp = (if tp + fp > 0 then tp / (tp + fp) else 0)"

definition recall_of :: "real \<Rightarrow> real \<Rightarrow> real" where
  "recall_of tp fn = (if tp + fn > 0 then tp / (tp + fn) else 0)"

definition f1_of :: "real \<Rightarrow> real \<Rightarrow> real" where
  "f1_of p r = (if p + r > 0 then 2 * p * r / (p + r) else 0)"

definition specificity_of :: "real \<Rightarrow> real \<Rightarrow> real" where
  "specificity_of tn fp = (if tn + fp > 0 then tn / (tn + fp) else 0)"

definition balanced_accuracy_of :: "real \<Rightarrow> real \<Rightarrow> real" where
  "balanced_accuracy_of r s = (r + s) / 2"


definition mcc_of :: "real \<Rightarrow> real \<Rightarrow> real \<Rightarrow> real \<Rightarrow> real" where
  "mcc_of tp fp fn tn =
     (let mcc_denominator = sqrt ((tp + fp) * (tp + fn) * (tn + fp) * (tn + fn))
      in if mcc_denominator \<noteq> 0 then ((tp * tn) - (fp * fn)) / mcc_denominator else 0)"

text \<open>Steps 1 to 4 of section 4.1 for class \<open>c\<close> of a matrix, and the metrics of the
  class.\<close>

definition ref_tp :: "int list list \<Rightarrow> nat \<Rightarrow> real" where
  "ref_tp matrix c = real_of_int (matrix ! c ! c)"

definition ref_column_sum :: "int list list \<Rightarrow> nat \<Rightarrow> real" where
  "ref_column_sum matrix c = (\<Sum>i \<leftarrow> [0..<length matrix]. real_of_int (matrix ! i ! c))"

definition ref_row_sum :: "int list list \<Rightarrow> nat \<Rightarrow> real" where
  "ref_row_sum matrix c = (\<Sum>j \<leftarrow> [0..<length matrix]. real_of_int (matrix ! c ! j))"

definition ref_total :: "int list list \<Rightarrow> real" where
  "ref_total matrix = (\<Sum>i \<leftarrow> [0..<length matrix]. ref_row_sum matrix i)"

definition ref_fp :: "int list list \<Rightarrow> nat \<Rightarrow> real" where
  "ref_fp matrix c = ref_column_sum matrix c - ref_tp matrix c"

definition ref_fn :: "int list list \<Rightarrow> nat \<Rightarrow> real" where
  "ref_fn matrix c = ref_row_sum matrix c - ref_tp matrix c"

definition ref_tn :: "int list list \<Rightarrow> nat \<Rightarrow> real" where
  "ref_tn matrix c = ref_total matrix - ref_tp matrix c - ref_fp matrix c - ref_fn matrix c"

definition ref_precision :: "int list list \<Rightarrow> nat \<Rightarrow> real" where
  "ref_precision matrix c = precision_of (ref_tp matrix c) (ref_fp matrix c)"

definition ref_recall :: "int list list \<Rightarrow> nat \<Rightarrow> real" where
  "ref_recall matrix c = recall_of (ref_tp matrix c) (ref_fn matrix c)"

definition ref_f1 :: "int list list \<Rightarrow> nat \<Rightarrow> real" where
  "ref_f1 matrix c = f1_of (ref_precision matrix c) (ref_recall matrix c)"

definition ref_specificity :: "int list list \<Rightarrow> nat \<Rightarrow> real" where
  "ref_specificity matrix c = specificity_of (ref_tn matrix c) (ref_fp matrix c)"

definition ref_balanced_accuracy :: "int list list \<Rightarrow> nat \<Rightarrow> real" where
  "ref_balanced_accuracy matrix c =
     balanced_accuracy_of (ref_recall matrix c) (ref_specificity matrix c)"

definition ref_mcc :: "int list list \<Rightarrow> nat \<Rightarrow> real" where
  "ref_mcc matrix c = mcc_of (ref_tp matrix c) (ref_fp matrix c) (ref_fn matrix c) (ref_tn matrix c)"



definition samples :: "int list list \<Rightarrow> nat \<Rightarrow> real" where
  "samples matrix c = real_of_int (sum_list (matrix ! c))"


subsection \<open>Ranges and diagonal matrices\<close>


text \<open>All entries off the diagonal are zero.\<close>

definition diagonal :: "'a::zero list list \<Rightarrow> bool" where
  "diagonal m =
     list_all (\<lambda>i. list_all (\<lambda>j. i = j \<or> m ! i ! j = 0) [0..<length m]) [0..<length m]"

subsection \<open>The function on a store\<close>

text \<open>
  The objects of the Python store that the function can meet: matrices (the nested
  list or array of the caller, and the array that \<^verbatim>\<open>np.array\<close> makes of it) and
  result dictionaries. The dictionary, its two inner dictionaries and its six lists
  are created together and never shared, and they are one object here. A store maps
  addresses to objects; the addresses below \<open>next_addr\<close> are in use.
\<close>

type_synonym addr = nat

datatype pyobj = Matrix "int64 list list" | Metrics metrics

record heap =
  objs :: "addr \<Rightarrow> pyobj"
  next_addr :: addr

definition new_object :: "heap \<Rightarrow> pyobj \<Rightarrow> addr \<times> heap" where
  "new_object h v =
     (next_addr h, h\<lparr>objs := (objs h)(next_addr h := v), next_addr := Suc (next_addr h)\<rparr>)"

text \<open>Reads of the array \<^verbatim>\<open>cm\<close> and of the dictionary \<^verbatim>\<open>metrics\<close>, at the addresses
  where the function has put them.\<close>

definition read_matrix :: "heap \<Rightarrow> addr \<Rightarrow> ndarray" where
  "read_matrix h a = (case objs h a of Matrix m \<Rightarrow> m | Metrics _ \<Rightarrow> [])"

definition read_metrics :: "heap \<Rightarrow> addr \<Rightarrow> metrics option" where
  "read_metrics h a = (case objs h a of Matrix _ \<Rightarrow> None | Metrics d \<Rightarrow> Some d)"

text \<open>An assignment to an entry of the dictionary, or an append to one of its lists.\<close>

definition modify_metrics :: "heap \<Rightarrow> addr \<Rightarrow> (metrics \<Rightarrow> metrics) \<Rightarrow> heap" where
  "modify_metrics h a f =
     (case objs h a of Matrix _ \<Rightarrow> h | Metrics d \<Rightarrow> h\<lparr>objs := (objs h)(a := Metrics (f d))\<rparr>)"

definition initial_metrics :: metrics where
  "initial_metrics =
     \<lparr>per_class = empty_per_class,
      overall = \<lparr>accuracy = Fin 0,
        macro_precision = Fin 0, macro_recall = Fin 0, macro_f1_score = Fin 0,
        macro_balanced_accuracy = Fin 0, macro_weighted_accuracy = Fin 0, macro_mcc = Fin 0,
        weighted_precision = Fin 0, weighted_recall = Fin 0, weighted_f1_score = Fin 0,
        weighted_balanced_accuracy = Fin 0, weighted_weighted_accuracy = Fin 0,
        weighted_mcc = Fin 0\<rparr>\<rparr>"

text \<open>The loop, on the store: each iteration reads \<^verbatim>\<open>cm\<close> and appends to the six
  lists of \<^verbatim>\<open>metrics\<close>.\<close>

fun class_loop_st :: "addr \<Rightarrow> addr \<Rightarrow> int64 \<Rightarrow> nat list \<Rightarrow> heap \<Rightarrow> error option \<times> heap" where
  "class_loop_st cm metrics total_samples [] h = (None, h)"
| "class_loop_st cm metrics total_samples (class_idx # rest) h =
     (case class_scores_at (read_matrix h cm) total_samples class_idx of
        Inl e \<Rightarrow> (Some e, h)
      | Inr s \<Rightarrow>
          class_loop_st cm metrics total_samples rest
            (modify_metrics h metrics (\<lambda>d. d\<lparr>per_class := append_scores (per_class d) s\<rparr>)))"

text \<open>The six macro averages, computed from the lists in the store and assigned.\<close>

definition store_macro :: "heap \<Rightarrow> addr \<Rightarrow> heap" where
  "store_macro h metrics =
     modify_metrics h metrics (\<lambda>d. d\<lparr>overall := (overall d)
       \<lparr>macro_precision := np_mean (precision (per_class d)),
        macro_recall := np_mean (recall (per_class d)),
        macro_f1_score := np_mean (f1_score (per_class d)),
        macro_balanced_accuracy := np_mean (balanced_accuracy (per_class d)),
        macro_weighted_accuracy := np_mean (weighted_accuracy (per_class d)),
        macro_mcc := np_mean (mcc (per_class d))\<rparr>\<rparr>)"

text \<open>One weighted average: computed, then assigned; nothing is assigned when
  \<^verbatim>\<open>np.average\<close> raises.\<close>

definition store_weighted ::
  "heap \<Rightarrow> addr \<Rightarrow> (per_class_metrics \<Rightarrow> npfloat list) \<Rightarrow> int64 list \<Rightarrow>
   (npfloat \<Rightarrow> overall_metrics \<Rightarrow> overall_metrics) \<Rightarrow> error option \<times> heap" where
  "store_weighted h metrics sel class_samples assign =
     (case read_metrics h metrics of
        None \<Rightarrow> (Some TypeError, h)
      | Some d \<Rightarrow>
          (case np_average (sel (per_class d)) class_samples of
             Inl e \<Rightarrow> (Some e, h)
           | Inr v \<Rightarrow> (None, modify_metrics h metrics (\<lambda>d. d\<lparr>overall := assign v (overall d)\<rparr>))))"

fun store_all_weighted ::
  "heap \<Rightarrow> addr \<Rightarrow> int64 list \<Rightarrow>
   ((per_class_metrics \<Rightarrow> npfloat list) \<times> (npfloat \<Rightarrow> overall_metrics \<Rightarrow> overall_metrics)) list \<Rightarrow>
   error option \<times> heap" where
  "store_all_weighted h metrics class_samples [] = (None, h)"
| "store_all_weighted h metrics class_samples ((sel, assign) # rest) =
     (case store_weighted h metrics sel class_samples assign of
        (Some e, h') \<Rightarrow> (Some e, h')
      | (None, h') \<Rightarrow> store_all_weighted h' metrics class_samples rest)"

definition weighted_entries ::
  "((per_class_metrics \<Rightarrow> npfloat list) \<times> (npfloat \<Rightarrow> overall_metrics \<Rightarrow> overall_metrics)) list" where
  "weighted_entries =
     [(precision, \<lambda>v ov. ov\<lparr>weighted_precision := v\<rparr>),
      (recall, \<lambda>v ov. ov\<lparr>weighted_recall := v\<rparr>),
      (f1_score, \<lambda>v ov. ov\<lparr>weighted_f1_score := v\<rparr>),
      (balanced_accuracy, \<lambda>v ov. ov\<lparr>weighted_balanced_accuracy := v\<rparr>),
      (weighted_accuracy, \<lambda>v ov. ov\<lparr>weighted_weighted_accuracy := v\<rparr>),
      (mcc, \<lambda>v ov. ov\<lparr>weighted_mcc := v\<rparr>)]"

text \<open>
  The function on the store, from \<^verbatim>\<open>total_samples = np.sum(cm)\<close> on: \<^verbatim>\<open>cm\<close> and
  \<^verbatim>\<open>metrics\<close> are the addresses of the array and of the dictionary.
\<close>

definition fill_metrics :: "addr \<Rightarrow> addr \<Rightarrow> heap \<Rightarrow> (error + addr) \<times> heap" where
  "fill_metrics cm metrics h =
     (let num_classes = length (read_matrix h cm);
          total_samples = np_sum_all (read_matrix h cm)
      in
      case np_sum_axis1 (read_matrix h cm) of
        Inl e \<Rightarrow> (Inl e, h)
      | Inr class_samples \<Rightarrow>
          let correct_predictions = np_trace (read_matrix h cm);
              h3 = modify_metrics h metrics (\<lambda>d. d\<lparr>overall := (overall d)
                     \<lparr>accuracy := np_div (fl correct_predictions) (fl total_samples)\<rparr>\<rparr>)
          in
          case class_loop_st cm metrics total_samples [0..<num_classes] h3 of
            (Some e, h4) \<Rightarrow> (Inl e, h4)
          | (None, h4) \<Rightarrow>
              (case store_all_weighted (store_macro h4 metrics) metrics class_samples
                      weighted_entries of
                 (Some e, h5) \<Rightarrow> (Inl e, h5)
               | (None, h5) \<Rightarrow> (Inr metrics, h5)))"

text \<open>
  The function on the store. Its argument is the address of the caller's matrix;
  \<^verbatim>\<open>np.array\<close> copies it into a new array, and the dictionary is new as well. An
  argument that is a dictionary becomes an array without dimensions, and
  \<^verbatim>\<open>cm.shape[0]\<close> raises \<^verbatim>\<open>IndexError\<close>. The result is the address of the new
  dictionary, or the exception, with the store that the call leaves behind.
\<close>

definition calculate_classification_metrics_st :: "addr \<Rightarrow> heap \<Rightarrow> (error + addr) \<times> heap" where
  "calculate_classification_metrics_st confusion_matrix h =
     (case objs h confusion_matrix of
        Metrics _ \<Rightarrow> (Inl IndexError, h)
      | Matrix m \<Rightarrow>
          (case np_array m of
             Inl e \<Rightarrow> (Inl e, h)
           | Inr a \<Rightarrow>
               let (cm, h1) = new_object h (Matrix a);
                   (metrics, h2) = new_object h1 (Metrics initial_metrics)
               in fill_metrics cm metrics h2))"

text \<open>Only the object at one address differs.\<close>

definition only_changed :: "addr \<Rightarrow> heap \<Rightarrow> heap \<Rightarrow> bool" where
  "only_changed a h h' = (next_addr h' = next_addr h \<and> (\<forall>b. b = a \<or> objs h' b = objs h b))"

section \<open>Properties\<close>

text \<open>The definitions that evaluate the function on a concrete matrix.\<close>

lemmas eval_defs = calculate_classification_metrics_def np_array_def ncols_def np_sum_all_def
  np_sum_axis1_def np_trace_def fl_def inf_of_sign_def class_scores_at_def cm_get_def
  column_sum_def row_sum_def empty_per_class_def append_scores_def scores_def np_sqrt_def
  np_pos_def np_nonzero_def Let_def upt_rec weighted_averages_def np_average_def np_mean_def
  np_fsum_def

subsection \<open>The loop and the function in closed form\<close>

lemma np_array_rect: "np_array m = (if rectangular m then Inr m else Inl ValueError)"
  by (simp add: np_array_def rectangular_def)

lemma class_scores_at_ok:
  "c < length cm \<Longrightarrow> c < ncols cm \<Longrightarrow> class_scores_at cm (np_sum_all cm) c = Inr (scores_of cm c)"
  by (simp add: class_scores_at_def cm_get_def scores_of_def Let_def)

lemma class_scores_at_bad:
  "\<not> (c < length cm \<and> c < ncols cm) \<Longrightarrow> class_scores_at cm t c = Inl IndexError"
  by (auto simp add: class_scores_at_def cm_get_def)

lemma class_loop_ok:
  "\<forall>c \<in> set cs. c < length cm \<and> c < ncols cm \<Longrightarrow>
   class_loop cm (np_sum_all cm) cs pc =
     Inr \<lparr>precision = precision pc @ map (\<lambda>c. precision_c (scores_of cm c)) cs,
          recall = recall pc @ map (\<lambda>c. recall_c (scores_of cm c)) cs,
          f1_score = f1_score pc @ map (\<lambda>c. f1_c (scores_of cm c)) cs,
          balanced_accuracy = balanced_accuracy pc @ map (\<lambda>c. balanced_accuracy_c (scores_of cm c)) cs,
          weighted_accuracy = weighted_accuracy pc @ map (\<lambda>c. weighted_accuracy_c (scores_of cm c)) cs,
          mcc = mcc pc @ map (\<lambda>c. mcc_c (scores_of cm c)) cs\<rparr>"
proof (induction cs arbitrary: pc)
  case Nil
  then show ?case by simp
next
  case (Cons c cs)
  then show ?case
    by (simp add: class_scores_at_ok append_scores_def)
qed

lemma class_loop_bad:
  "\<exists>c \<in> set cs. \<not> (c < length cm \<and> c < ncols cm) \<Longrightarrow>
   class_loop cm t cs pc = Inl IndexError"
proof (induction cs arbitrary: pc)
  case Nil
  then show ?case by simp
next
  case (Cons c cs)
  show ?case
  proof (cases "c < length cm \<and> c < ncols cm")
    case True
    then obtain s where s: "class_scores_at cm t c = Inr s"
      by (simp add: class_scores_at_def cm_get_def Let_def)
    from True Cons.prems have "\<exists>c \<in> set cs. \<not> (c < length cm \<and> c < ncols cm)" by auto
    then show ?thesis using Cons.IH s by simp
  next
    case False
    then show ?thesis by (simp add: class_scores_at_bad)
  qed
qed

lemma class_loop_all:
  assumes "length cm \<le> ncols cm"
  shows "class_loop cm (np_sum_all cm) [0..<length cm] empty_per_class = Inr (per_class_of cm)"
proof -
  have "\<forall>c \<in> set [0..<length cm]. c < length cm \<and> c < ncols cm"
    using assms by auto
  from class_loop_ok [OF this] show ?thesis
    by (simp add: empty_per_class_def per_class_of_def)
qed

lemma class_loop_short:
  assumes "ncols cm < length cm"
  shows "class_loop cm t [0..<length cm] pc = Inl IndexError"
proof -
  have "ncols cm \<in> set [0..<length cm]" using assms by simp
  then have "\<exists>c \<in> set [0..<length cm]. \<not> (c < length cm \<and> c < ncols cm)"
    by blast
  then show ?thesis by (rule class_loop_bad)
qed

lemma np_average_rows:
  assumes "length xs = length cm"
  shows "np_average xs (map sum_list cm) =
           (if weights_total cm = 0 then Inl ZeroDivisionError else Inr (weighted_of cm xs))"
  using assms by (simp add: np_average_def weights_total_def weighted_of_def)

lemma per_class_of_lengths:
  "length (precision (per_class_of cm)) = length cm"
  "length (recall (per_class_of cm)) = length cm"
  "length (f1_score (per_class_of cm)) = length cm"
  "length (balanced_accuracy (per_class_of cm)) = length cm"
  "length (weighted_accuracy (per_class_of cm)) = length cm"
  "length (mcc (per_class_of cm)) = length cm"
  by (simp_all add: per_class_of_def)

lemma weighted_averages_rows:
  "weighted_averages (per_class_of cm) (map sum_list cm) =
     (if weights_total cm = 0 then Inl ZeroDivisionError
      else Inr (weighted_of cm (precision (per_class_of cm)),
                weighted_of cm (recall (per_class_of cm)),
                weighted_of cm (f1_score (per_class_of cm)),
                weighted_of cm (balanced_accuracy (per_class_of cm)),
                weighted_of cm (weighted_accuracy (per_class_of cm)),
                weighted_of cm (mcc (per_class_of cm))))"
  by (simp add: weighted_averages_def np_average_rows per_class_of_lengths)

lemma calculate_cases:
  "calculate_classification_metrics m =
     (if \<not> rectangular m then Inl ValueError
      else if m = [] then Inl AxisError
      else if ncols m < length m then Inl IndexError
      else if weights_total m = 0 then Inl ZeroDivisionError
      else Inr \<lparr>per_class = per_class_of m, overall = overall_of m\<rparr>)"
proof -
  consider (ragged) "\<not> rectangular m"
    | (empty) "rectangular m" "m = []"
    | (short) "rectangular m" "m \<noteq> []" "ncols m < length m"
    | (zero) "rectangular m" "m \<noteq> []" "length m \<le> ncols m" "weights_total m = 0"
    | (ok) "rectangular m" "m \<noteq> []" "length m \<le> ncols m" "weights_total m \<noteq> 0"
    by linarith
  then show ?thesis
  proof cases
    case ragged
    then show ?thesis
      by (simp add: calculate_classification_metrics_def np_array_rect)
  next
    case empty
    then show ?thesis
      by (simp add: calculate_classification_metrics_def np_array_rect np_sum_axis1_def)
  next
    case short
    then show ?thesis
      by (simp add: calculate_classification_metrics_def np_array_rect np_sum_axis1_def
          class_loop_short)
  next
    case zero
    have "class_loop m (np_sum_all m) [0..<length m] empty_per_class = Inr (per_class_of m)"
      using zero(3) by (rule class_loop_all)
    moreover have "weighted_averages (per_class_of m) (map sum_list m) = Inl ZeroDivisionError"
      using zero by (simp add: weighted_averages_rows)
    ultimately show ?thesis
      using zero
      by (simp add: calculate_classification_metrics_def np_array_rect np_sum_axis1_def
          del: class_loop.simps)
  next
    case ok
    then show ?thesis
      by (simp add: calculate_classification_metrics_def np_array_rect np_sum_axis1_def
          class_loop_all weighted_averages_rows overall_of_def)
  qed
qed

subsection \<open>Words and their signed values\<close>

lemma sint_exact:
  fixes w :: int64
  assumes "w = word_of_int k" "- (2 ^ 63) \<le> k" "k < 2 ^ 63"
  shows "sint w = k"
  using assms by (simp add: sint_sbintrunc' signed_take_bit_int_eq_self)

lemma sum_list_word: "(sum_list ws :: int64) = word_of_int (sum_list (map sint ws))"
  by (induction ws) simp_all

lemma sint_range: "- (2 ^ 63) \<le> sint (w :: int64) \<and> sint w < 2 ^ 63"
  using sint_ge [of w] sint_lt [of w] by simp

subsection \<open>The scores when nothing wraps\<close>

lemma scores_precision:
  assumes "sint (tp + fp) = sint tp + sint fp"
  shows "precision_c (scores tp fp fn tn) =
    Fin (precision_of (real_of_int (sint tp)) (real_of_int (sint fp)))"
  using assms by (simp add: scores_def Let_def fl_def precision_of_def del: of_int_sint)

lemma scores_recall:
  assumes "sint (tp + fn) = sint tp + sint fn"
  shows "recall_c (scores tp fp fn tn) =
    Fin (recall_of (real_of_int (sint tp)) (real_of_int (sint fn)))"
  using assms by (simp add: scores_def Let_def fl_def recall_of_def del: of_int_sint)

lemma scores_f1:
  assumes "sint (tp + fp) = sint tp + sint fp" "sint (tp + fn) = sint tp + sint fn"
  shows "f1_c (scores tp fp fn tn) =
     Fin (f1_of (precision_of (real_of_int (sint tp)) (real_of_int (sint fp)))
            (recall_of (real_of_int (sint tp)) (real_of_int (sint fn))))"
  using assms
  by (simp add: scores_def Let_def fl_def precision_of_def recall_of_def f1_of_def np_pos_def
      del: of_int_sint)

lemma scores_balanced_accuracy:
  assumes "sint (tp + fn) = sint tp + sint fn" "sint (tn + fp) = sint tn + sint fp"
  shows "balanced_accuracy_c (scores tp fp fn tn) =
     Fin (balanced_accuracy_of (recall_of (real_of_int (sint tp)) (real_of_int (sint fn)))
            (specificity_of (real_of_int (sint tn)) (real_of_int (sint fp))))"
  using assms
  by (simp add: scores_def Let_def fl_def recall_of_def specificity_of_def
      balanced_accuracy_of_def del: of_int_sint)


lemma scores_mcc:
  assumes r: "sint ((tp + fp) * (tp + fn) * (tn + fp) * (tn + fn)) =
      (sint tp + sint fp) * (sint tp + sint fn) * (sint tn + sint fp) * (sint tn + sint fn)"
    and p: "0 \<le> (sint tp + sint fp) * (sint tp + sint fn) * (sint tn + sint fp) * (sint tn + sint fn)"
    and n: "sint (tp * tn - fp * fn) = sint tp * sint tn - sint fp * sint fn"
  shows "mcc_c (scores tp fp fn tn) =
     Fin (mcc_of (real_of_int (sint tp)) (real_of_int (sint fp))
            (real_of_int (sint fn)) (real_of_int (sint tn)))"
proof -
  let ?w = "(tp + fp) * (tp + fn) * (tn + fp) * (tn + fn)"
  let ?d = "(sint tp + sint fp) * (sint tp + sint fn) * (sint tn + sint fp) * (sint tn + sint fn)"
  have d: "real_of_int ?d = (real_of_int (sint tp) + real_of_int (sint fp))
     * (real_of_int (sint tp) + real_of_int (sint fn))
     * (real_of_int (sint tn) + real_of_int (sint fp))
     * (real_of_int (sint tn) + real_of_int (sint fn))"
    by (simp del: of_int_sint)
  have s: "np_sqrt ?w = Fin (sqrt (real_of_int ?d))"
    using p by (simp add: np_sqrt_def r del: of_int_sint)
  have f: "fl (tp * tn - fp * fn) =
      Fin (real_of_int (sint tp) * real_of_int (sint tn) - real_of_int (sint fp) * real_of_int (sint fn))"
    by (simp add: fl_def n del: of_int_sint)
  have "mcc_c (scores tp fp fn tn) =
      (if Fin (sqrt (real_of_int ?d)) \<noteq> Fin 0
       then np_div (fl (tp * tn - fp * fn)) (Fin (sqrt (real_of_int ?d))) else Fin 0)"
    by (simp add: scores_def Let_def s np_nonzero_def del: of_int_sint)
  then show ?thesis
    unfolding f d mcc_of_def Let_def by (simp del: of_int_sint)
qed

subsection \<open>The formulas on real numbers\<close>









subsection \<open>Shapes\<close>

lemma square_rectangular: "square m \<Longrightarrow> rectangular m \<and> ncols m = length m"
  by (cases m) (auto simp: square_def rectangular_def ncols_def list_all_iff)

lemma rectangular_row: "rectangular m \<Longrightarrow> i < length m \<Longrightarrow> length (m ! i) = ncols m"
  by (simp add: rectangular_def list_all_length)

lemma square_row: "square m \<Longrightarrow> i < length m \<Longrightarrow> length (m ! i) = length m"
  by (simp add: square_def list_all_length)

lemma map_index: "map (\<lambda>i. f (xs ! i)) [0..<length xs] = map f xs"
  by (rule nth_equalityI) simp_all


lemma diagonal_entry:
  "diagonal m \<Longrightarrow> i < length m \<Longrightarrow> j < length m \<Longrightarrow> i \<noteq> j \<Longrightarrow> m ! i ! j = 0"
proof -
  assume d: "diagonal m" and i: "i < length m" and j: "j < length m" and n: "i \<noteq> j"
  from d i have "list_all (\<lambda>j. i = j \<or> m ! i ! j = 0) [0..<length m]"
    by (simp add: diagonal_def list_all_iff)
  with j have "i = j \<or> m ! i ! j = 0" by (simp add: list_all_iff)
  with n show ?thesis by simp
qed

subsection \<open>Sums of unbounded integers\<close>

lemma exact_rows_total: "sum_list (map sum_list cm) = exact_total cm"
  unfolding exact_total_def by (induction cm) simp_all

lemma nonneg_entry: "nonneg_ints m \<Longrightarrow> i < length m \<Longrightarrow> j < length (m ! i) \<Longrightarrow> 0 \<le> m ! i ! j"
  by (simp add: nonneg_ints_def list_all_length)

lemma nth_le_sum_list:
  fixes xs :: "int list"
  assumes "\<forall>x \<in> set xs. 0 \<le> x" "i < length xs"
  shows "xs ! i \<le> sum_list xs"
  using assms
proof (induction xs arbitrary: i)
  case Nil
  then show ?case by simp
next
  case (Cons x xs)
  have tl: "0 \<le> sum_list xs" using Cons.prems(1) by (simp add: sum_list_nonneg)
  show ?case
  proof (cases i)
    case 0
    then show ?thesis using tl by simp
  next
    case (Suc k)
    then have "xs ! k \<le> sum_list xs" using Cons by simp
    moreover have "0 \<le> x" using Cons.prems(1) by simp
    ultimately show ?thesis using Suc by simp
  qed
qed

lemma nonneg_row: "nonneg_ints m \<Longrightarrow> i < length m \<Longrightarrow> \<forall>x \<in> set (m ! i). 0 \<le> x"
  using nth_mem [of i m] by (auto simp: nonneg_ints_def list_all_iff)

lemma tp_nonneg:
  assumes "rectangular m" "nonneg_ints m" "c < length m" "c < ncols m"
  shows "0 \<le> m ! c ! c"
  using assms by (simp add: nonneg_entry rectangular_row)

lemma fn_nonneg:
  assumes "rectangular m" "nonneg_ints m" "c < length m" "c < ncols m"
  shows "0 \<le> exact_row_sum m c - m ! c ! c"
proof -
  have "m ! c ! c \<le> sum_list (m ! c)"
    using assms by (intro nth_le_sum_list nonneg_row) (simp_all add: rectangular_row)
  then show ?thesis by (simp add: exact_row_sum_def)
qed

lemma fp_nonneg:
  assumes "rectangular m" "nonneg_ints m" "c < length m" "c < ncols m"
  shows "0 \<le> exact_column_sum m c - m ! c ! c"
proof -
  let ?col = "map (\<lambda>r. r ! c) m"
  have "\<forall>x \<in> set ?col. 0 \<le> x"
  proof
    fix x assume "x \<in> set ?col"
    then obtain i where i: "i < length m" "x = m ! i ! c"
      by (auto simp: in_set_conv_nth)
    then show "0 \<le> x" using assms by (simp add: nonneg_entry rectangular_row)
  qed
  moreover have "c < length ?col" using assms by simp
  ultimately have "?col ! c \<le> sum_list ?col" by (rule nth_le_sum_list)
  then show ?thesis using assms by (simp add: exact_column_sum_def)
qed

lemma tn_nonneg:
  assumes "rectangular m" "nonneg_ints m" "c < length m" "c < ncols m"
  shows "0 \<le> exact_total m - (m ! c ! c + (exact_column_sum m c - m ! c ! c) + (exact_row_sum m c - m ! c ! c))"
proof -
  let ?rest = "map (\<lambda>r. sum_list r - r ! c) m"
  have "\<forall>x \<in> set ?rest. 0 \<le> x"
  proof
    fix x assume "x \<in> set ?rest"
    then obtain i where i: "i < length m" "x = sum_list (m ! i) - m ! i ! c"
      by (auto simp: in_set_conv_nth)
    have "m ! i ! c \<le> sum_list (m ! i)"
      using assms i by (intro nth_le_sum_list nonneg_row) (simp_all add: rectangular_row)
    then show "0 \<le> x" using i by simp
  qed
  moreover have "c < length ?rest" using assms by simp
  ultimately have "?rest ! c \<le> sum_list ?rest" by (rule nth_le_sum_list)
  moreover have "sum_list ?rest = exact_total m - exact_column_sum m c"
    by (simp add: sum_list_subtractf exact_column_sum_def exact_rows_total)
  ultimately show ?thesis using assms by (simp add: exact_row_sum_def)
qed

lemma of_int_sum_list_real: "real_of_int (sum_list xs) = sum_list (map real_of_int xs)"
  by (induction xs) simp_all

lemma ref_column_sum: "real_of_int (exact_column_sum m c) = ref_column_sum m c"
  by (simp add: exact_column_sum_def ref_column_sum_def of_int_sum_list_real comp_def
      map_index [of "\<lambda>r. real_of_int (r ! c)" m])

lemma ref_row_sum:
  assumes "square m" "c < length m"
  shows "real_of_int (exact_row_sum m c) = ref_row_sum m c"
proof -
  have "map real_of_int (m ! c) = map (\<lambda>j. real_of_int (m ! c ! j)) [0..<length (m ! c)]"
    by (simp add: map_index [of real_of_int "m ! c"])
  then show ?thesis
    using assms by (simp add: exact_row_sum_def ref_row_sum_def of_int_sum_list_real square_row)
qed

lemma ref_total:
  assumes "square m"
  shows "real_of_int (exact_total m) = ref_total m"
proof -
  have "real_of_int (exact_total m) = sum_list (map (\<lambda>r. real_of_int (sum_list r)) m)"
    by (simp add: of_int_sum_list_real comp_def flip: exact_rows_total)
  also have "\<dots> = sum_list (map (\<lambda>i. real_of_int (sum_list (m ! i))) [0..<length m])"
    by (simp add: map_index [of "\<lambda>r. real_of_int (sum_list r)" m])
  also have "\<dots> = sum_list (map (\<lambda>i. ref_row_sum m i) [0..<length m])"
    using assms by (intro arg_cong [where f = sum_list] map_cong refl)
      (simp add: ref_row_sum [symmetric] exact_row_sum_def)
  finally show ?thesis by (simp add: ref_total_def)
qed

lemma counts_ref:
  assumes "square m" "c < length m"
  shows "real_of_int (m ! c ! c) = ref_tp m c"
    and "real_of_int (exact_column_sum m c - m ! c ! c) = ref_fp m c"
    and "real_of_int (exact_row_sum m c - m ! c ! c) = ref_fn m c"
    and "real_of_int (exact_total m - (m ! c ! c + (exact_column_sum m c - m ! c ! c) + (exact_row_sum m c - m ! c ! c)))
           = ref_tn m c"
  using assms
  by (simp_all add: ref_tp_def ref_fp_def ref_fn_def ref_tn_def ref_column_sum [symmetric]
      ref_row_sum [symmetric] ref_total [symmetric])

lemma counts_nonneg:
  assumes "square m" "nonneg_ints m" "c < length m"
  shows "0 \<le> m ! c ! c"
    and "0 \<le> exact_column_sum m c - m ! c ! c"
    and "0 \<le> exact_row_sum m c - m ! c ! c"
    and "0 \<le> exact_total m - (m ! c ! c + (exact_column_sum m c - m ! c ! c) + (exact_row_sum m c - m ! c ! c))"
proof -
  have r: "rectangular m" and n: "c < ncols m"
    using assms square_rectangular [of m] by simp_all
  show "0 \<le> m ! c ! c" using r assms(2,3) n by (rule tp_nonneg)
  show "0 \<le> exact_column_sum m c - m ! c ! c" using r assms(2,3) n by (rule fp_nonneg)
  show "0 \<le> exact_row_sum m c - m ! c ! c" using r assms(2,3) n by (rule fn_nonneg)
  show "0 \<le> exact_total m - (m ! c ! c + (exact_column_sum m c - m ! c ! c) + (exact_row_sum m c - m ! c ! c))"
    using r assms(2,3) n by (rule tn_nonneg)
qed

lemma mcc_radicand_nonneg:
  fixes tp fp fn tn :: int
  assumes "0 \<le> tp" "0 \<le> fp" "0 \<le> fn" "0 \<le> tn"
  shows "0 \<le> (tp + fp) * (tp + fn) * (tn + fp) * (tn + fn)"
  using assms by simp

lemma trace_bounds:
  assumes "rectangular m" "nonneg_ints m" "length m \<le> ncols m"
  shows "0 \<le> exact_trace m" and "exact_trace m \<le> exact_total m"
proof -
  have diag: "exact_trace m = (\<Sum>i \<leftarrow> [0..<length m]. m ! i ! i)"
    using assms(3) by (simp add: exact_trace_def min_def)
  have each: "0 \<le> m ! i ! i \<and> m ! i ! i \<le> sum_list (m ! i)" if "i < length m" for i
  proof -
    have "i < length (m ! i)" using assms(1,3) that by (simp add: rectangular_row)
    then show ?thesis
      using assms(2) that by (simp add: nonneg_entry nth_le_sum_list nonneg_row)
  qed
  show "0 \<le> exact_trace m"
    unfolding diag using each by (intro sum_list_nonneg) auto
  have "(\<Sum>i \<leftarrow> [0..<length m]. m ! i ! i) \<le> (\<Sum>i \<leftarrow> [0..<length m]. sum_list (m ! i))"
    using each by (intro sum_list_mono) auto
  also have "\<dots> = sum_list (map sum_list m)"
    by (simp add: map_index [of sum_list m])
  finally show "exact_trace m \<le> exact_total m"
    by (simp add: diag exact_rows_total)
qed

lemma total_samples: "real_of_int (exact_total m) = (\<Sum>c \<leftarrow> [0..<length m]. samples m c)"
proof -
  have "real_of_int (exact_total m) = sum_list (map (\<lambda>r. real_of_int (sum_list r)) m)"
    by (simp add: of_int_sum_list_real comp_def flip: exact_rows_total)
  also have "\<dots> = (\<Sum>c \<leftarrow> [0..<length m]. samples m c)"
    by (simp add: samples_def map_index [of "\<lambda>r. real_of_int (sum_list r)" m])
  finally show ?thesis .
qed








lemma sum_list_single:
  fixes f :: "nat \<Rightarrow> int"
  assumes "c < n" "\<forall>j < n. j \<noteq> c \<longrightarrow> f j = 0"
  shows "(\<Sum>j \<leftarrow> [0..<n]. f j) = f c"
proof -
  have "(\<Sum>j \<leftarrow> [0..<n]. f j) = (\<Sum>j \<in> {0..<n}. f j)"
    by (simp add: interv_sum_list_conv_sum_set_nat)
  also have "\<dots> = (\<Sum>j \<in> {0..<n}. if j = c then f c else 0)"
    using assms(2) by (intro sum.cong) auto
  also have "\<dots> = f c"
    using assms(1) by simp
  finally show ?thesis .
qed

lemma diagonal_row_sum:
  assumes "square m" "diagonal m" "c < length m"
  shows "exact_row_sum m c = m ! c ! c"
proof -
  have "exact_row_sum m c = (\<Sum>j \<leftarrow> [0..<length (m ! c)]. m ! c ! j)"
    by (simp add: exact_row_sum_def map_nth)
  also have "\<dots> = (\<Sum>j \<leftarrow> [0..<length m]. m ! c ! j)"
    using assms(1,3) by (simp add: square_row)
  also have "\<dots> = m ! c ! c"
    using assms(2,3) by (intro sum_list_single) (auto simp: diagonal_entry)
  finally show ?thesis .
qed

lemma diagonal_column_sum:
  assumes "diagonal m" "c < length m"
  shows "exact_column_sum m c = m ! c ! c"
proof -
  have "exact_column_sum m c = (\<Sum>i \<leftarrow> [0..<length m]. m ! i ! c)"
    by (simp add: exact_column_sum_def map_index [of "\<lambda>r. r ! c" m])
  also have "\<dots> = m ! c ! c"
    using assms by (intro sum_list_single) (auto simp: diagonal_entry)
  finally show ?thesis .
qed

lemma diagonal_trace:
  assumes "square m" "diagonal m"
  shows "exact_trace m = exact_total m"
proof -
  have "exact_trace m = (\<Sum>i \<leftarrow> [0..<length m]. m ! i ! i)"
    using square_rectangular [OF assms(1)] by (simp add: exact_trace_def)
  also have "\<dots> = (\<Sum>i \<leftarrow> [0..<length m]. sum_list (m ! i))"
    using diagonal_row_sum [OF assms]
    by (intro arg_cong [where f = sum_list] map_cong refl) (simp add: exact_row_sum_def)
  also have "\<dots> = sum_list (map sum_list m)"
    by (simp add: map_index [of sum_list m])
  finally show ?thesis by (simp add: exact_rows_total)
qed

subsection \<open>The \<^verbatim>\<open>int64\<close> sums and the sums of unbounded integers\<close>

lemma ints_length [simp]: "length (ints m) = length m"
  by (simp add: ints_def)

lemma ints_row: "i < length m \<Longrightarrow> ints m ! i = map sint (m ! i)"
  by (simp add: ints_def)

lemma ints_entry: "i < length m \<Longrightarrow> j < length (m ! i) \<Longrightarrow> ints m ! i ! j = sint (m ! i ! j)"
  by (simp add: ints_def)

lemma ints_ncols [simp]: "ncols (ints m) = ncols m"
  by (cases m) (simp_all add: ints_def ncols_def)

lemma ints_rectangular [simp]: "rectangular (ints m) = rectangular m"
  by (simp add: rectangular_def) (simp add: ints_def list_all_iff)

lemma ints_square [simp]: "square (ints m) = square m"
  by (simp add: square_def) (simp add: ints_def list_all_iff)

lemma ints_nonneg: "nonneg_ints (ints m) = nonneg m"
  by (simp add: nonneg_ints_def nonneg_def ints_def list_all_iff)

lemma ints_diagonal:
  assumes "square m" "diagonal m"
  shows "diagonal (ints m)"
proof -
  have "i = j \<or> ints m ! i ! j = 0" if "i < length m" "j < length m" for i j
  proof (cases "i = j")
    case False
    have "m ! i ! j = 0" using assms(2) that False by (rule diagonal_entry)
    moreover have "j < length (m ! i)" using assms(1) that by (simp add: square_row)
    ultimately show ?thesis using that by (simp add: ints_entry)
  qed simp
  then show ?thesis by (simp add: diagonal_def list_all_iff)
qed

lemma word_total: "np_sum_all m = word_of_int (exact_total (ints m))"
  by (simp add: np_sum_all_def exact_total_def ints_def sum_list_word [of "concat m"] map_concat)

lemma word_row_sum: "c < length m \<Longrightarrow> row_sum m c = word_of_int (exact_row_sum (ints m) c)"
  by (simp add: row_sum_def exact_row_sum_def ints_row sum_list_word [of "m ! c"])

lemma word_row_sums: "r \<in> set m \<Longrightarrow> sum_list r = (word_of_int (sum_list (map sint r)) :: int64)"
  by (rule sum_list_word)

lemma word_column_sum:
  assumes "rectangular m" "c < ncols m"
  shows "column_sum m c = word_of_int (exact_column_sum (ints m) c)"
proof -
  have "map (\<lambda>r. r ! c) (ints m) = map sint (map (\<lambda>r. r ! c) m)"
    unfolding ints_def map_map
  proof (rule map_cong [OF refl])
    fix r assume "r \<in> set m"
    then have "length r = ncols m" using assms(1) by (simp add: rectangular_def list_all_iff)
    then show "((\<lambda>r. r ! c) \<circ> map sint) r = (sint \<circ> (\<lambda>r. r ! c)) r"
      using assms(2) by simp
  qed
  then show ?thesis
    by (simp add: column_sum_def exact_column_sum_def sum_list_word [of "map (\<lambda>r. r ! c) m"])
qed

lemma word_trace:
  assumes "rectangular m"
  shows "np_trace m = word_of_int (exact_trace (ints m))"
proof -
  let ?n = "min (length m) (ncols m)"
  have "map (\<lambda>i. ints m ! i ! i) [0..<?n] = map sint (map (\<lambda>i. m ! i ! i) [0..<?n])"
    unfolding map_map
  proof (rule map_cong [OF refl])
    fix i assume "i \<in> set [0..<?n]"
    then have i: "i < length m" "i < ncols m" by simp_all
    then have "i < length (m ! i)" using assms by (simp add: rectangular_row)
    then show "ints m ! i ! i = (sint \<circ> (\<lambda>i. m ! i ! i)) i"
      using i by (simp add: ints_entry)
  qed
  then have "exact_trace (ints m) = sum_list (map sint (map (\<lambda>i. m ! i ! i) [0..<?n]))"
    unfolding exact_trace_def ints_length ints_ncols by (simp only:)
  then show ?thesis
    unfolding np_trace_def by (simp only: sum_list_word [of "map (\<lambda>i. m ! i ! i) [0..<?n]"])
qed

lemma word_entry:
  "i < length m \<Longrightarrow> j < length (m ! i) \<Longrightarrow> m ! i ! j = word_of_int (ints m ! i ! j)"
  by (simp add: ints_entry)

subsection \<open>When no \<^verbatim>\<open>int64\<close> value wraps\<close>

lemma sint_of_int:
  "- (2 ^ 63) \<le> k \<Longrightarrow> k < 2 ^ 63 \<Longrightarrow> sint (word_of_int k :: int64) = k"
  by (rule sint_exact) simp_all

lemma exact_total_nonneg: "nonneg_ints z \<Longrightarrow> 0 \<le> exact_total z"
  unfolding exact_total_def
  by (rule sum_list_nonneg) (auto simp: nonneg_ints_def list_all_iff)

lemma exact_row_bounds:
  assumes "nonneg_ints z" "c < length z"
  shows "0 \<le> exact_row_sum z c" and "exact_row_sum z c \<le> exact_total z"
proof -
  have rows: "\<forall>x \<in> set (map sum_list z). 0 \<le> x"
    using assms(1) by (auto simp: nonneg_ints_def list_all_iff intro: sum_list_nonneg)
  show "0 \<le> exact_row_sum z c"
    using rows assms(2) by (simp add: exact_row_sum_def)
  have "map sum_list z ! c \<le> sum_list (map sum_list z)"
    using rows assms(2) by (intro nth_le_sum_list) simp_all
  then show "exact_row_sum z c \<le> exact_total z"
    using assms(2) by (simp add: exact_row_sum_def exact_rows_total)
qed

lemma total_exact:
  assumes "nonneg m" "exact_total (ints m) < 2 ^ 63"
  shows "sint (np_sum_all m) = exact_total (ints m)"
proof -
  have "0 \<le> exact_total (ints m)"
    using assms(1) by (simp add: exact_total_nonneg ints_nonneg)
  then show ?thesis
    unfolding word_total using assms(2) by (intro sint_of_int) simp_all
qed

lemma row_exact:
  assumes "nonneg m" "exact_total (ints m) < 2 ^ 63" "c < length m"
  shows "sint (sum_list (m ! c)) = exact_row_sum (ints m) c"
proof -
  have b: "0 \<le> exact_row_sum (ints m) c" "exact_row_sum (ints m) c \<le> exact_total (ints m)"
    using exact_row_bounds [of "ints m" c] assms(1,3) by (simp_all add: ints_nonneg)
  have "sum_list (m ! c) = (word_of_int (exact_row_sum (ints m) c) :: int64)"
    using word_row_sum [OF assms(3)] by (simp add: row_sum_def)
  then show ?thesis
    using b assms(2) by (simp add: sint_of_int)
qed

lemma weights_total_exact:
  assumes "nonneg m" "exact_total (ints m) < 2 ^ 63"
  shows "weights_total m = real_of_int (exact_total (ints m))"
proof -
  have "map (\<lambda>w. real_of_int (sint w)) (map sum_list m) =
        map (\<lambda>c. real_of_int (sint (sum_list (m ! c)))) [0..<length m]"
    by (simp add: map_index [of "\<lambda>r. real_of_int (sint (sum_list r))" m] comp_def
        del: of_int_sint)
  also have "\<dots> = map (\<lambda>c. samples (ints m) c) [0..<length m]"
  proof (rule map_cong [OF refl])
    fix c assume "c \<in> set [0..<length m]"
    then have "c < length m" by simp
    then show "real_of_int (sint (sum_list (m ! c))) = samples (ints m) c"
      using row_exact [OF assms] by (simp add: samples_def exact_row_sum_def del: of_int_sint)
  qed
  finally show ?thesis
    by (simp only: weights_total_def total_samples ints_length)
qed

lemma trace_exact:
  assumes "rectangular m" "nonneg m" "length m \<le> ncols m" "exact_total (ints m) < 2 ^ 63"
  shows "sint (np_trace m) = exact_trace (ints m)"
proof -
  have "0 \<le> exact_trace (ints m)" "exact_trace (ints m) \<le> exact_total (ints m)"
    using trace_bounds [of "ints m"] assms(1,2,3) by (simp_all add: ints_nonneg)
  then show ?thesis
    unfolding word_trace [OF assms(1)] using assms(4) by (intro sint_of_int) simp_all
qed

text \<open>The four counts of a class, as words and as integers.\<close>

lemma counts_word:
  assumes "square m" "c < length m"
  shows "m ! c ! c = word_of_int (ints m ! c ! c)"
    and "column_sum m c - m ! c ! c = word_of_int (exact_column_sum (ints m) c - ints m ! c ! c)"
    and "row_sum m c - m ! c ! c = word_of_int (exact_row_sum (ints m) c - ints m ! c ! c)"
    and "np_sum_all m - (m ! c ! c + (column_sum m c - m ! c ! c) + (row_sum m c - m ! c ! c)) =
      word_of_int (exact_total (ints m) - (ints m ! c ! c + (exact_column_sum (ints m) c - ints m ! c ! c)
        + (exact_row_sum (ints m) c - ints m ! c ! c)))"
proof -
  have r: "rectangular m" and n: "c < ncols m" and l: "c < length (m ! c)"
    using assms square_rectangular [of m] by (simp_all add: square_row)
  show e: "m ! c ! c = word_of_int (ints m ! c ! c)"
    using assms(2) l by (rule word_entry)
  show "column_sum m c - m ! c ! c = word_of_int (exact_column_sum (ints m) c - ints m ! c ! c)"
    using e by (simp add: word_column_sum [OF r n])
  show "row_sum m c - m ! c ! c = word_of_int (exact_row_sum (ints m) c - ints m ! c ! c)"
    using e by (simp add: word_row_sum [OF assms(2)])
  show "np_sum_all m - (m ! c ! c + (column_sum m c - m ! c ! c) + (row_sum m c - m ! c ! c)) =
      word_of_int (exact_total (ints m) - (ints m ! c ! c + (exact_column_sum (ints m) c - ints m ! c ! c)
        + (exact_row_sum (ints m) c - ints m ! c ! c)))"
    using e by (simp add: word_column_sum [OF r n] word_row_sum [OF assms(2)] word_total)
qed

lemma product_bounds:
  fixes a b c d :: int
  assumes "0 \<le> a" "0 \<le> b" "0 \<le> c" "0 \<le> d"
  shows "a * d \<le> (a + b) * (a + c) * (d + b) * (d + c)"
    and "b * c \<le> (a + b) * (a + c) * (d + b) * (d + c)"
proof -
  let ?X = "(a + b) * (d + c)" and ?Y = "(a + c) * (d + b)"
  have e: "(a + b) * (a + c) * (d + b) * (d + c) = ?X * ?Y" by (simp add: mult_ac)
  have x: "a * d \<le> ?X" "b * c \<le> ?X"
    using assms by (simp_all add: distrib_left distrib_right)
  have y: "a * d \<le> ?Y" "b * c \<le> ?Y"
    using assms by (simp_all add: distrib_left distrib_right mult.commute)
  have x0: "0 \<le> ?X" and y0: "0 \<le> ?Y" using assms by simp_all
  have p: "k \<le> ?X * ?Y" if "k \<le> ?X" "k \<le> ?Y" for k
  proof (cases "k \<le> 0")
    case True
    then show ?thesis using x0 y0 by (meson mult_nonneg_nonneg order_trans)
  next
    case False
    then have "1 \<le> ?Y" using that(2) by linarith
    then have "?X * 1 \<le> ?X * ?Y" using x0 by (intro mult_left_mono) simp_all
    then show ?thesis using that(1) by linarith
  qed
  show "a * d \<le> (a + b) * (a + c) * (d + b) * (d + c)"
    unfolding e using x(1) y(1) by (rule p)
  show "b * c \<le> (a + b) * (a + c) * (d + b) * (d + c)"
    unfolding e using x(2) y(2) by (rule p)
qed

subsection \<open>The reference algorithm and the loop\<close>

lemma no_wrap_total: "no_wrap m \<Longrightarrow> exact_total (ints m) < 2 ^ 63"
  by (simp add: no_wrap_def)

lemma no_wrap_radicand: "no_wrap m \<Longrightarrow> c < length m \<Longrightarrow> exact_radicand (ints m) c < 2 ^ 63"
  by (simp add: no_wrap_def list_all_iff)

lemma counts_sint:
  fixes m :: "int64 list list"
  defines "z \<equiv> ints m"
  assumes "square m" "nonneg m" "no_wrap m" "c < length m"
  defines "tp \<equiv> m ! c ! c"
    and "fp \<equiv> column_sum m c - m ! c ! c"
    and "fn \<equiv> row_sum m c - m ! c ! c"
    and "tn \<equiv> np_sum_all m - (m ! c ! c + (column_sum m c - m ! c ! c) + (row_sum m c - m ! c ! c))"
  shows "real_of_int (sint tp) = ref_tp z c"
    and "real_of_int (sint fp) = ref_fp z c"
    and "real_of_int (sint fn) = ref_fn z c"
    and "real_of_int (sint tn) = ref_tn z c"
    and "sint (tp + fp) = sint tp + sint fp"
    and "sint (tp + fn) = sint tp + sint fn"
    and "sint (tn + fp) = sint tn + sint fp"
    and "sint (tp + tn) = sint tp + sint tn"
    and "sint (tp + tn + fp + fn) = sint tp + sint tn + sint fp + sint fn"
    and "sint tp + sint tn + sint fp + sint fn = exact_total z"
    and "sint ((tp + fp) * (tp + fn) * (tn + fp) * (tn + fn)) =
      (sint tp + sint fp) * (sint tp + sint fn) * (sint tn + sint fp) * (sint tn + sint fn)"
    and "0 \<le> (sint tp + sint fp) * (sint tp + sint fn) * (sint tn + sint fp) * (sint tn + sint fn)"
    and "sint (tp * tn - fp * fn) = sint tp * sint tn - sint fp * sint fn"
proof -
  define a where "a = z ! c ! c"
  define b where "b = exact_column_sum z c - z ! c ! c"
  define e where "e = exact_row_sum z c - z ! c ! c"
  define d where "d = exact_total z - (a + b + e)"
  have sq: "square z" and nn: "nonneg_ints z" and len: "c < length z"
    using assms(2,3,5) by (simp_all add: z_def ints_nonneg)
  have w: "tp = word_of_int a" "fp = word_of_int b" "fn = word_of_int e" "tn = word_of_int d"
    using counts_word [OF assms(2,5)]
    unfolding tp_def fp_def fn_def tn_def a_def b_def e_def d_def z_def by simp_all
  have p: "0 \<le> a" "0 \<le> b" "0 \<le> e" "0 \<le> d"
    using counts_nonneg [OF sq nn len] unfolding a_def b_def e_def d_def by simp_all
  have t: "exact_total z < 2 ^ 63" "a + b + e + d = exact_total z"
    using no_wrap_total [OF assms(4)] by (simp_all add: z_def d_def)
  have x: "sint (word_of_int k :: int64) = k" if "0 \<le> k" "k \<le> exact_total z" for k
    using that t(1) by (intro sint_of_int) linarith+
  have s: "sint tp = a" "sint fp = b" "sint fn = e" "sint tn = d"
    unfolding w using p t by (simp_all add: x)
  have cr: "real_of_int a = ref_tp z c" "real_of_int b = ref_fp z c"
    "real_of_int e = ref_fn z c" "real_of_int d = ref_tn z c"
    using counts_ref [OF sq len] unfolding a_def b_def e_def d_def by simp_all
  show "real_of_int (sint tp) = ref_tp z c" "real_of_int (sint fp) = ref_fp z c"
    "real_of_int (sint fn) = ref_fn z c" "real_of_int (sint tn) = ref_tn z c"
    unfolding s by (rule cr)+
  have "sint (tp + fp) = sint (word_of_int (a + b) :: int64)" by (simp add: w)
  also have "\<dots> = a + b" using p t by (intro x) linarith+
  finally show "sint (tp + fp) = sint tp + sint fp"
    unfolding s .
  have "sint (tp + fn) = sint (word_of_int (a + e) :: int64)" by (simp add: w)
  also have "\<dots> = a + e" using p t by (intro x) linarith+
  finally show "sint (tp + fn) = sint tp + sint fn"
    unfolding s .
  have "sint (tn + fp) = sint (word_of_int (d + b) :: int64)" by (simp add: w)
  also have "\<dots> = d + b" using p t by (intro x) linarith+
  finally show "sint (tn + fp) = sint tn + sint fp"
    unfolding s .
  have "sint (tp + tn) = sint (word_of_int (a + d) :: int64)" by (simp add: w)
  also have "\<dots> = a + d" using p t by (intro x) linarith+
  finally show "sint (tp + tn) = sint tp + sint tn"
    unfolding s .
  have "sint (tp + tn + fp + fn) = sint (word_of_int (a + d + b + e) :: int64)" by (simp add: w)
  also have "\<dots> = a + d + b + e" using p t by (intro x) linarith+
  finally show "sint (tp + tn + fp + fn) = sint tp + sint tn + sint fp + sint fn"
    unfolding s .
  show "sint tp + sint tn + sint fp + sint fn = exact_total z"
    unfolding s using t(2) by simp
  let ?r = "(a + b) * (a + e) * (d + b) * (d + e)"
  have rd: "?r = exact_radicand z c"
    by (simp add: exact_radicand_def Let_def a_def b_def e_def d_def)
  have r0: "0 \<le> ?r" using p by (rule mcc_radicand_nonneg)
  have r1: "?r < 2 ^ 63"
    unfolding rd z_def using assms(4,5) by (rule no_wrap_radicand)
  have "sint ((tp + fp) * (tp + fn) * (tn + fp) * (tn + fn)) = sint (word_of_int ?r :: int64)"
    by (simp add: w)
  also have "\<dots> = ?r" using r0 r1 by (intro sint_of_int) linarith+
  finally show "sint ((tp + fp) * (tp + fn) * (tn + fp) * (tn + fn)) =
      (sint tp + sint fp) * (sint tp + sint fn) * (sint tn + sint fp) * (sint tn + sint fn)"
    unfolding s .
  show "0 \<le> (sint tp + sint fp) * (sint tp + sint fn) * (sint tn + sint fp) * (sint tn + sint fn)"
    unfolding s by (rule r0)
  have pb: "a * d \<le> ?r" "b * e \<le> ?r" using p by (rule product_bounds)+
  have "0 \<le> a * d" "0 \<le> b * e" using p by simp_all
  then have n: "- (2 ^ 63) \<le> a * d - b * e" "a * d - b * e < 2 ^ 63"
    using pb r1 by linarith+
  have "sint (tp * tn - fp * fn) = sint (word_of_int (a * d - b * e) :: int64)"
    by (simp add: w)
  also have "\<dots> = a * d - b * e" using n by (rule sint_of_int)
  finally show "sint (tp * tn - fp * fn) = sint tp * sint tn - sint fp * sint fn"
    unfolding s .
qed

lemma scores_of_ref:
  assumes "square m" "nonneg m" "no_wrap m" "c < length m"
  shows "precision_c (scores_of m c) = Fin (ref_precision (ints m) c)"
    and "recall_c (scores_of m c) = Fin (ref_recall (ints m) c)"
    and "f1_c (scores_of m c) = Fin (ref_f1 (ints m) c)"
    and "balanced_accuracy_c (scores_of m c) = Fin (ref_balanced_accuracy (ints m) c)"
    and "mcc_c (scores_of m c) = Fin (ref_mcc (ints m) c)"
proof -
  note cs = counts_sint [OF assms]
  show "precision_c (scores_of m c) = Fin (ref_precision (ints m) c)"
    unfolding scores_of_def Let_def scores_precision [OF cs(5)] ref_precision_def cs(1,2) ..
  show "recall_c (scores_of m c) = Fin (ref_recall (ints m) c)"
    unfolding scores_of_def Let_def scores_recall [OF cs(6)] ref_recall_def cs(1,3) ..
  show "f1_c (scores_of m c) = Fin (ref_f1 (ints m) c)"
    unfolding scores_of_def Let_def scores_f1 [OF cs(5,6)] ref_f1_def ref_precision_def
      ref_recall_def cs(1,2,3) ..
  show "balanced_accuracy_c (scores_of m c) = Fin (ref_balanced_accuracy (ints m) c)"
    unfolding scores_of_def Let_def scores_balanced_accuracy [OF cs(6,7)]
      ref_balanced_accuracy_def ref_recall_def ref_specificity_def cs(1,2,3,4) ..
  show "mcc_c (scores_of m c) = Fin (ref_mcc (ints m) c)"
    unfolding scores_of_def Let_def scores_mcc [OF cs(11,12,13)] ref_mcc_def cs(1,2,3,4) ..
qed



subsection \<open>When the call returns\<close>

lemma calculate_success:
  assumes "calculate_classification_metrics m = Inr r"
  shows "rectangular m" and "m \<noteq> []" and "length m \<le> ncols m" and "weights_total m \<noteq> 0"
    and "r = \<lparr>per_class = per_class_of m, overall = overall_of m\<rparr>"
  using assms by (auto simp: calculate_cases split: if_splits)

lemma calculate_counts:
  assumes "rectangular m" "m \<noteq> []" "length m \<le> ncols m" "nonneg m"
    and "exact_total (ints m) < 2 ^ 63" "exact_total (ints m) \<noteq> 0"
  shows "calculate_classification_metrics m = Inr \<lparr>per_class = per_class_of m, overall = overall_of m\<rparr>"
  using assms by (simp add: calculate_cases weights_total_exact)

lemma calculate_square:
  assumes "square m" "m \<noteq> []" "nonneg m" "exact_total (ints m) < 2 ^ 63" "exact_total (ints m) \<noteq> 0"
  shows "calculate_classification_metrics m = Inr \<lparr>per_class = per_class_of m, overall = overall_of m\<rparr>"
  using assms square_rectangular [of m] by (simp add: calculate_counts)

lemma success_total:
  assumes "calculate_classification_metrics m = Inr r" "nonneg m" "exact_total (ints m) < 2 ^ 63"
  shows "0 < exact_total (ints m)"
proof -
  have "weights_total m \<noteq> 0" using assms(1) by (rule calculate_success)
  then have "exact_total (ints m) \<noteq> 0"
    using weights_total_exact [OF assms(2,3)] by simp
  moreover have "0 \<le> exact_total (ints m)"
    using assms(2) by (simp add: exact_total_nonneg ints_nonneg)
  ultimately show ?thesis by linarith
qed

lemma accuracy_exact:
  assumes "rectangular m" "nonneg m" "length m \<le> ncols m" "exact_total (ints m) < 2 ^ 63"
    and "exact_total (ints m) \<noteq> 0"
  shows "accuracy (overall_of m) =
    Fin (real_of_int (exact_trace (ints m)) / real_of_int (exact_total (ints m)))"
  using assms(5)
  by (simp add: overall_of_def fl_def trace_exact [OF assms(1,2,3,4)] total_exact [OF assms(2,4)]
      del: of_int_sint)

subsection \<open>Finite scores and their averages\<close>












subsection \<open>Matrices with a small total\<close>

lemma small_total_no_wrap:
  assumes "square m" "nonneg m" "exact_total (ints m) \<le> 55108"
  shows "no_wrap m"
proof -
  let ?z = "ints m"
  have sq: "square ?z" and nn: "nonneg_ints ?z"
    using assms(1,2) by (simp_all add: ints_nonneg)
  have "exact_radicand ?z c < 2 ^ 63" if "c < length m" for c
  proof -
    define a where "a = ?z ! c ! c"
    define b where "b = exact_column_sum ?z c - ?z ! c ! c"
    define e where "e = exact_row_sum ?z c - ?z ! c ! c"
    define d where "d = exact_total ?z - (a + b + e)"
    have p: "0 \<le> a" "0 \<le> b" "0 \<le> e" "0 \<le> d"
      using counts_nonneg [OF sq nn] that unfolding a_def b_def e_def d_def by simp_all
    have t: "a + b + e + d \<le> 55108" using assms(3) by (simp add: d_def)
    have x: "(a + b) * (a + e) \<le> 55108 * 55108"
      using p t by (intro mult_mono) linarith+
    have y: "(d + b) * (d + e) \<le> 55108 * 55108"
      using p t by (intro mult_mono) linarith+
    have y0: "0 \<le> (d + b) * (d + e)" using p by simp
    have "((a + b) * (a + e)) * ((d + b) * (d + e)) \<le> (55108 * 55108) * (55108 * 55108)"
      by (rule mult_mono [OF x y _ y0]) simp
    moreover have "exact_radicand ?z c = ((a + b) * (a + e)) * ((d + b) * (d + e))"
      by (simp add: exact_radicand_def Let_def a_def b_def e_def d_def mult.assoc)
    ultimately show ?thesis by simp
  qed
  then show ?thesis
    using assms(3) by (simp add: no_wrap_def list_all_iff)
qed

subsection \<open>Worked examples\<close>


lemma sqrt_81: "sqrt 81 = 9"
  by (rule real_sqrt_unique) simp_all

lemma sqrt_256: "sqrt 256 = 16"
  by (rule real_sqrt_unique) simp_all


lemma example_result:
  "calculate_classification_metrics [[2, 1], [1, 2]] =
     Inr \<lparr>per_class =
            \<lparr>precision = [Fin (2 / 3), Fin (2 / 3)], recall = [Fin (2 / 3), Fin (2 / 3)],
             f1_score = [Fin (2 / 3), Fin (2 / 3)],
             balanced_accuracy = [Fin (2 / 3), Fin (2 / 3)],
             weighted_accuracy = [Fin (2 / 3), Fin (2 / 3)],
             mcc = [Fin (1 / 3), Fin (1 / 3)]\<rparr>,
          overall =
            \<lparr>accuracy = Fin (2 / 3),
             macro_precision = Fin (2 / 3), macro_recall = Fin (2 / 3),
             macro_f1_score = Fin (2 / 3), macro_balanced_accuracy = Fin (2 / 3),
             macro_weighted_accuracy = Fin (2 / 3), macro_mcc = Fin (1 / 3),
             weighted_precision = Fin (2 / 3), weighted_recall = Fin (2 / 3),
             weighted_f1_score = Fin (2 / 3), weighted_balanced_accuracy = Fin (2 / 3),
             weighted_weighted_accuracy = Fin (2 / 3), weighted_mcc = Fin (1 / 3)\<rparr>\<rparr>"
  by (simp add: eval_defs sqrt_81)

lemma example_exact:
  "calculate_classification_metrics [[3, 1], [1, 3]] =
     Inr \<lparr>per_class =
            \<lparr>precision = [Fin (3 / 4), Fin (3 / 4)], recall = [Fin (3 / 4), Fin (3 / 4)],
             f1_score = [Fin (3 / 4), Fin (3 / 4)],
             balanced_accuracy = [Fin (3 / 4), Fin (3 / 4)],
             weighted_accuracy = [Fin (3 / 4), Fin (3 / 4)],
             mcc = [Fin (1 / 2), Fin (1 / 2)]\<rparr>,
          overall =
            \<lparr>accuracy = Fin (3 / 4),
             macro_precision = Fin (3 / 4), macro_recall = Fin (3 / 4),
             macro_f1_score = Fin (3 / 4), macro_balanced_accuracy = Fin (3 / 4),
             macro_weighted_accuracy = Fin (3 / 4), macro_mcc = Fin (1 / 2),
             weighted_precision = Fin (3 / 4), weighted_recall = Fin (3 / 4),
             weighted_f1_score = Fin (3 / 4), weighted_balanced_accuracy = Fin (3 / 4),
             weighted_weighted_accuracy = Fin (3 / 4), weighted_mcc = Fin (1 / 2)\<rparr>\<rparr>"
  by (simp add: eval_defs sqrt_256)

subsection \<open>Diagonal matrices\<close>

lemma diagonal_ref:
  assumes "square z" "nonneg_ints z" "diagonal z" "c < length z" "exact_row_sum z c \<noteq> 0"
  shows "ref_precision z c = 1"
    and "ref_recall z c = 1"
    and "ref_f1 z c = 1"
    and "ref_mcc z c = (if exact_row_sum z c = exact_total z then 0 else 1)"
proof -
  have rs: "exact_row_sum z c = z ! c ! c" using assms(1,3,4) by (rule diagonal_row_sum)
  have cs: "exact_column_sum z c = z ! c ! c" using assms(3,4) by (rule diagonal_column_sum)
  note cr = counts_ref [OF assms(1,4), unfolded rs cs]
  note cn = counts_nonneg [OF assms(1,2,4), unfolded rs cs]
  have tp: "0 < ref_tp z c"
    using cn(1) assms(5) rs cr(1) by simp
  have fp: "ref_fp z c = 0" and fn: "ref_fn z c = 0"
    using cr(2,3) by simp_all
  have tn: "ref_tn z c = real_of_int (exact_total z - z ! c ! c)" "0 \<le> ref_tn z c"
    using cr(4) cn(4) by simp_all
  show p: "ref_precision z c = 1"
    using tp by (simp add: ref_precision_def precision_of_def fp)
  show r: "ref_recall z c = 1"
    using tp by (simp add: ref_recall_def recall_of_def fn)
  show "ref_f1 z c = 1"
    by (simp add: ref_f1_def f1_of_def p r)
  have "sqrt (ref_tp z c * ref_tp z c * ref_tn z c * ref_tn z c) = ref_tp z c * ref_tn z c"
  proof (rule real_sqrt_unique)
    show "(ref_tp z c * ref_tn z c)\<^sup>2 = ref_tp z c * ref_tp z c * ref_tn z c * ref_tn z c"
      by (simp add: power2_eq_square)
    show "0 \<le> ref_tp z c * ref_tn z c" using tp tn(2) by simp
  qed
  then have "ref_mcc z c = (if ref_tn z c = 0 then 0 else 1)"
    using tp by (simp add: ref_mcc_def mcc_of_def fp fn)
  moreover have "ref_tn z c = 0 \<longleftrightarrow> exact_row_sum z c = exact_total z"
    unfolding tn(1) rs by (simp add: eq_commute [of "exact_total z" "z ! c ! c"])
  ultimately show "ref_mcc z c = (if exact_row_sum z c = exact_total z then 0 else 1)"
    by simp
qed

lemma diagonal_scores_of:
  assumes "square m" "nonneg m" "diagonal m" "no_wrap m" "c < length m"
    and "exact_row_sum (ints m) c \<noteq> 0"
  shows "precision_c (scores_of m c) = Fin 1"
    and "recall_c (scores_of m c) = Fin 1"
    and "f1_c (scores_of m c) = Fin 1"
    and "mcc_c (scores_of m c) =
      (if exact_row_sum (ints m) c = exact_total (ints m) then Fin 0 else Fin 1)"
proof -
  have z: "square (ints m)" "nonneg_ints (ints m)" "diagonal (ints m)" "c < length (ints m)"
    using assms(1,2,3,5) by (simp_all add: ints_nonneg ints_diagonal)
  note d = diagonal_ref [OF z assms(6)]
  note s = scores_of_ref [OF assms(1,2,4,5)]
  show "precision_c (scores_of m c) = Fin 1" by (simp add: s d)
  show "recall_c (scores_of m c) = Fin 1" by (simp add: s d)
  show "f1_c (scores_of m c) = Fin 1" by (simp add: s d)
  show "mcc_c (scores_of m c) =
      (if exact_row_sum (ints m) c = exact_total (ints m) then Fin 0 else Fin 1)"
    by (simp add: s d)
qed

lemma diagonal_accuracy:
  assumes "square m" "nonneg m" "diagonal m" "exact_total (ints m) < 2 ^ 63"
    and "exact_total (ints m) \<noteq> 0"
  shows "accuracy (overall_of m) = Fin 1"
proof -
  have r: "rectangular m" "length m \<le> ncols m"
    using square_rectangular [OF assms(1)] by simp_all
  have "exact_trace (ints m) = exact_total (ints m)"
    using assms(1,3) by (intro diagonal_trace) (simp_all add: ints_diagonal)
  then show ?thesis
    using assms(5) by (simp add: accuracy_exact [OF r(1) assms(2) r(2) assms(4,5)])
qed

subsection \<open>The function on the store\<close>

lemma only_changed_refl: "only_changed a h h"
  by (simp add: only_changed_def)

lemma only_changed_trans: "only_changed a h h' \<Longrightarrow> only_changed a h' h'' \<Longrightarrow> only_changed a h h''"
  unfolding only_changed_def by metis

lemma only_changed_modify: "only_changed a h (modify_metrics h a f)"
  by (simp add: only_changed_def modify_metrics_def split: pyobj.splits)

lemma modify_metrics_at:
  "objs h a = Metrics d \<Longrightarrow> modify_metrics h a f = h\<lparr>objs := (objs h)(a := Metrics (f d))\<rparr>"
  by (simp add: modify_metrics_def)

lemma class_loop_st_frame:
  "class_loop_st cm metrics t cs h = (r, h') \<Longrightarrow> only_changed metrics h h'"
proof (induction cs arbitrary: h)
  case Nil
  then show ?case by (simp add: only_changed_refl)
next
  case (Cons c cs)
  show ?case
  proof (cases "class_scores_at (read_matrix h cm) t c")
    case (Inl e)
    with Cons.prems show ?thesis by (simp add: only_changed_refl)
  next
    case (Inr s)
    let ?h = "modify_metrics h metrics (\<lambda>d. d\<lparr>per_class := append_scores (per_class d) s\<rparr>)"
    from Inr Cons.prems have "class_loop_st cm metrics t cs ?h = (r, h')" by simp
    then have "only_changed metrics ?h h'" by (rule Cons.IH)
    with only_changed_modify [of metrics h] show ?thesis by (rule only_changed_trans)
  qed
qed

lemma class_loop_st_ok:
  assumes "objs h cm = Matrix a" "objs h metrics = Metrics d"
    and "class_loop a t cs (per_class d) = Inr pc"
  shows "class_loop_st cm metrics t cs h =
           (None, h\<lparr>objs := (objs h)(metrics := Metrics (d\<lparr>per_class := pc\<rparr>))\<rparr>)"
  using assms
proof (induction cs arbitrary: h d)
  case Nil
  then have "pc = per_class d" by simp
  then have "(objs h)(metrics := Metrics (d\<lparr>per_class := pc\<rparr>)) = objs h"
    using Nil.prems(2) by (simp add: fun_upd_idem)
  then show ?case by simp
next
  case (Cons c cs)
  have rm: "read_matrix h cm = a" using Cons.prems(1) by (simp add: read_matrix_def)
  from Cons.prems(3) obtain s where s: "class_scores_at a t c = Inr s"
    and rest: "class_loop a t cs (append_scores (per_class d) s) = Inr pc"
    by (auto split: sum.splits)
  let ?d = "d\<lparr>per_class := append_scores (per_class d) s\<rparr>"
  let ?h = "h\<lparr>objs := (objs h)(metrics := Metrics ?d)\<rparr>"
  have m: "modify_metrics h metrics (\<lambda>d. d\<lparr>per_class := append_scores (per_class d) s\<rparr>) = ?h"
    using Cons.prems(2) by (rule modify_metrics_at)
  have ne: "cm \<noteq> metrics" using Cons.prems(1,2) by auto
  have "class_loop_st cm metrics t cs ?h =
           (None, ?h\<lparr>objs := (objs ?h)(metrics := Metrics (?d\<lparr>per_class := pc\<rparr>))\<rparr>)"
    using ne Cons.prems(1) rest by (intro Cons.IH) simp_all
  moreover have "?h\<lparr>objs := (objs ?h)(metrics := Metrics (?d\<lparr>per_class := pc\<rparr>))\<rparr> =
      h\<lparr>objs := (objs h)(metrics := Metrics (d\<lparr>per_class := pc\<rparr>))\<rparr>"
    by simp
  moreover have "class_loop_st cm metrics t (c # cs) h = class_loop_st cm metrics t cs ?h"
    by (simp add: rm s m)
  ultimately show ?case by (simp only:)
qed

lemma class_loop_st_error:
  assumes "objs h cm = Matrix a" "objs h metrics = Metrics d"
    and "class_loop a t cs (per_class d) = Inl e"
  shows "fst (class_loop_st cm metrics t cs h) = Some e"
  using assms
proof (induction cs arbitrary: h d)
  case Nil
  then show ?case by simp
next
  case (Cons c cs)
  have rm: "read_matrix h cm = a" using Cons.prems(1) by (simp add: read_matrix_def)
  show ?case
  proof (cases "class_scores_at a t c")
    case (Inl e')
    with Cons.prems(3) show ?thesis by (simp add: rm)
  next
    case (Inr s)
    let ?d = "d\<lparr>per_class := append_scores (per_class d) s\<rparr>"
    let ?h = "h\<lparr>objs := (objs h)(metrics := Metrics ?d)\<rparr>"
    have m: "modify_metrics h metrics (\<lambda>d. d\<lparr>per_class := append_scores (per_class d) s\<rparr>) = ?h"
      using Cons.prems(2) by (rule modify_metrics_at)
    have ne: "cm \<noteq> metrics" using Cons.prems(1,2) by auto
    have "fst (class_loop_st cm metrics t cs ?h) = Some e"
      using ne Cons.prems(1,3) Inr by (intro Cons.IH [of ?h ?d]) simp_all
    then show ?thesis by (simp add: rm Inr m)
  qed
qed

lemma store_weighted_frame:
  "store_weighted h metrics sel cs assign = (r, h') \<Longrightarrow> only_changed metrics h h'"
  using only_changed_modify [of metrics h]
  by (auto simp: store_weighted_def only_changed_refl split: option.splits sum.splits)

lemma store_all_weighted_frame:
  "store_all_weighted h metrics cs es = (r, h') \<Longrightarrow> only_changed metrics h h'"
proof (induction es arbitrary: h)
  case Nil
  then show ?case by (simp add: only_changed_refl)
next
  case (Cons x es)
  obtain sel assign where x: "x = (sel, assign)" by (cases x)
  obtain r1 h1 where s: "store_weighted h metrics sel cs assign = (r1, h1)"
    by (cases "store_weighted h metrics sel cs assign")
  have f1: "only_changed metrics h h1" using s by (rule store_weighted_frame)
  show ?case
  proof (cases r1)
    case None
    with Cons.prems x s have "store_all_weighted h1 metrics cs es = (r, h')" by simp
    then have "only_changed metrics h1 h'" by (rule Cons.IH)
    with f1 show ?thesis by (rule only_changed_trans)
  next
    case (Some e)
    with Cons.prems x s have "h' = h1" by simp
    with f1 show ?thesis by simp
  qed
qed

lemma store_weighted_ok:
  assumes "objs h metrics = Metrics d" "np_average (sel (per_class d)) cs = Inr v"
  shows "store_weighted h metrics sel cs assign =
           (None, h\<lparr>objs := (objs h)(metrics := Metrics (d\<lparr>overall := assign v (overall d)\<rparr>))\<rparr>)"
  using assms by (simp add: store_weighted_def read_metrics_def modify_metrics_def)

lemma store_weighted_error:
  assumes "objs h metrics = Metrics d" "np_average (sel (per_class d)) cs = Inl e"
  shows "store_weighted h metrics sel cs assign = (Some e, h)"
  using assms by (simp add: store_weighted_def read_metrics_def)

lemma store_all_weighted_ok:
  assumes "objs h metrics = Metrics d"
    and "weighted_averages (per_class d) cs = Inr (avg_p, avg_r, avg_f, avg_b, avg_w, avg_m)"
  shows "store_all_weighted h metrics cs weighted_entries =
    (None, h\<lparr>objs := (objs h)(metrics := Metrics (d\<lparr>overall := (overall d)
       \<lparr>weighted_precision := avg_p, weighted_recall := avg_r, weighted_f1_score := avg_f,
        weighted_balanced_accuracy := avg_b, weighted_weighted_accuracy := avg_w,
        weighted_mcc := avg_m\<rparr>\<rparr>))\<rparr>)"
proof -
  from assms(2) have a:
    "np_average (precision (per_class d)) cs = Inr avg_p"
    "np_average (recall (per_class d)) cs = Inr avg_r"
    "np_average (f1_score (per_class d)) cs = Inr avg_f"
    "np_average (balanced_accuracy (per_class d)) cs = Inr avg_b"
    "np_average (weighted_accuracy (per_class d)) cs = Inr avg_w"
    "np_average (mcc (per_class d)) cs = Inr avg_m"
    by (auto simp: weighted_averages_def split: sum.splits)
  show ?thesis
    unfolding weighted_entries_def
    by (simp add: store_weighted_ok [where d = d] assms(1) a
        store_weighted_ok [where h = "h\<lparr>objs := (objs h)(metrics := Metrics d')\<rparr>" and d = d' for d'])
qed

lemma store_all_weighted_error:
  assumes "objs h metrics = Metrics d"
    and "weighted_averages (per_class d) cs = Inl e"
  shows "fst (store_all_weighted h metrics cs weighted_entries) = Some e"
proof -
  have ok: "store_weighted h' metrics sel cs assign =
      (None, h'\<lparr>objs := (objs h')(metrics := Metrics (d'\<lparr>overall := assign v (overall d')\<rparr>))\<rparr>)"
    if "objs h' metrics = Metrics d'" "np_average (sel (per_class d')) cs = Inr v"
    for h' d' sel assign v
    using that by (rule store_weighted_ok)
  have er: "store_weighted h' metrics sel cs assign = (Some e', h')"
    if "objs h' metrics = Metrics d'" "np_average (sel (per_class d')) cs = Inl e'"
    for h' d' sel assign e'
    using that by (rule store_weighted_error)
  show ?thesis
    using assms(2) unfolding weighted_entries_def weighted_averages_def
    by (auto simp: assms(1) ok [where d' = d] er [where d' = d]
        ok [where h' = "h\<lparr>objs := (objs h)(metrics := Metrics d')\<rparr>" and d' = d' for d']
        er [where h' = "h\<lparr>objs := (objs h)(metrics := Metrics d')\<rparr>" and d' = d' for d']
        split: sum.splits)
qed

lemma store_macro_frame: "only_changed metrics h (store_macro h metrics)"
  by (simp add: store_macro_def only_changed_modify)

lemma fill_metrics_frame:
  assumes "fill_metrics cm metrics h = (res, h')"
  shows "only_changed metrics h h'"
proof (cases "np_sum_axis1 (read_matrix h cm)")
  case (Inl e)
  with assms have "h' = h" by (simp add: fill_metrics_def Let_def)
  then show ?thesis by (simp add: only_changed_refl)
next
  case (Inr class_samples)
  define h3 where "h3 = modify_metrics h metrics (\<lambda>d. d\<lparr>overall := (overall d)
     \<lparr>accuracy := np_div (fl (np_trace (read_matrix h cm))) (fl (np_sum_all (read_matrix h cm)))\<rparr>\<rparr>)"
  have f3: "only_changed metrics h h3"
    unfolding h3_def by (rule only_changed_modify)
  obtain r4 h4 where l: "class_loop_st cm metrics (np_sum_all (read_matrix h cm))
      [0..<length (read_matrix h cm)] h3 = (r4, h4)"
    by (cases "class_loop_st cm metrics (np_sum_all (read_matrix h cm))
      [0..<length (read_matrix h cm)] h3")
  have f4: "only_changed metrics h h4"
    using f3 class_loop_st_frame [OF l] by (rule only_changed_trans)
  obtain r5 h5 where w: "store_all_weighted (store_macro h4 metrics) metrics class_samples
      weighted_entries = (r5, h5)"
    by (cases "store_all_weighted (store_macro h4 metrics) metrics class_samples weighted_entries")
  have f5: "only_changed metrics h h5"
    using f4 store_macro_frame store_all_weighted_frame [OF w]
    by (blast intro: only_changed_trans)
  have "h' = h4 \<or> h' = h5"
    using assms Inr l w
    by (auto simp: fill_metrics_def Let_def h3_def [symmetric] split: option.splits)
  with f4 f5 show ?thesis by blast
qed

lemma calculate_st_frame:
  assumes "calculate_classification_metrics_st confusion_matrix h = (res, h')"
  shows "\<forall>b < next_addr h. objs h' b = objs h b"
proof (cases "objs h confusion_matrix")
  case (Metrics d)
  with assms show ?thesis by (simp add: calculate_classification_metrics_st_def)
next
  case (Matrix m)
  show ?thesis
  proof (cases "np_array m")
    case (Inl e)
    with assms Matrix show ?thesis by (simp add: calculate_classification_metrics_st_def)
  next
    case (Inr a)
    define h2 where "h2 = h\<lparr>objs := (objs h)(next_addr h := Matrix a,
      Suc (next_addr h) := Metrics initial_metrics), next_addr := Suc (Suc (next_addr h))\<rparr>"
    have h2: "\<forall>b < next_addr h. objs h2 b = objs h b"
      by (simp add: h2_def)
    have "fill_metrics (next_addr h) (Suc (next_addr h)) h2 = (res, h')"
      using assms Matrix Inr
      by (simp add: calculate_classification_metrics_st_def new_object_def h2_def)
    then have oc: "only_changed (Suc (next_addr h)) h2 h'" by (rule fill_metrics_frame)
    show ?thesis
    proof (intro allI impI)
      fix b assume b: "b < next_addr h"
      then have "b \<noteq> Suc (next_addr h)" by simp
      with oc have "objs h' b = objs h2 b" unfolding only_changed_def by blast
      with h2 b show "objs h' b = objs h b" by simp
    qed
  qed
qed

lemma fill_metrics_refines:
  assumes cm: "objs h cm = Matrix a" and met: "objs h metrics = Metrics initial_metrics"
    and arr: "np_array m = Inr a" and run: "fill_metrics cm metrics h = (res, h')"
  shows "case calculate_classification_metrics m of
           Inl e \<Rightarrow> res = Inl e
         | Inr r \<Rightarrow> res = Inr metrics \<and> objs h' metrics = Metrics r"
proof (cases "np_sum_axis1 a")
  case (Inl e)
  then show ?thesis
    using run cm arr
    by (simp add: fill_metrics_def calculate_classification_metrics_def read_matrix_def Let_def)
next
  case (Inr class_samples)
  have ne: "cm \<noteq> metrics" using cm met by auto
  have rm: "read_matrix h cm = a" using cm by (simp add: read_matrix_def)
  define acc where "acc = np_div (fl (np_trace a)) (fl (np_sum_all a))"
  define d3 where "d3 = initial_metrics\<lparr>overall := (overall initial_metrics)\<lparr>accuracy := acc\<rparr>\<rparr>"
  define h3 where "h3 = h\<lparr>objs := (objs h)(metrics := Metrics d3)\<rparr>"
  have m3: "modify_metrics h metrics (\<lambda>d. d\<lparr>overall := (overall d)
       \<lparr>accuracy := np_div (fl (np_trace a)) (fl (np_sum_all a))\<rparr>\<rparr>) = h3"
    using met by (simp add: modify_metrics_at h3_def d3_def acc_def)
  have o3: "objs h3 cm = Matrix a" "objs h3 metrics = Metrics d3"
    using cm ne by (simp_all add: h3_def)
  have p3: "per_class d3 = empty_per_class"
    by (simp add: d3_def initial_metrics_def)
  have run': "(case class_loop_st cm metrics (np_sum_all a) [0..<length a] h3 of
            (Some e, h4) \<Rightarrow> (Inl e, h4)
          | (None, h4) \<Rightarrow>
              (case store_all_weighted (store_macro h4 metrics) metrics class_samples
                      weighted_entries of
                 (Some e, h5) \<Rightarrow> (Inl e, h5)
               | (None, h5) \<Rightarrow> (Inr metrics, h5))) = (res, h')"
    using run by (simp add: fill_metrics_def Let_def rm Inr m3)
  have pure: "calculate_classification_metrics m =
      (case class_loop a (np_sum_all a) [0..<length a] empty_per_class of
        Inl e \<Rightarrow> Inl e
      | Inr pc \<Rightarrow>
      case weighted_averages pc class_samples of
        Inl e \<Rightarrow> Inl e
      | Inr (avg_p, avg_r, avg_f, avg_b, avg_w, avg_m) \<Rightarrow>
          Inr \<lparr>per_class = pc,
               overall = \<lparr>accuracy = acc,
                 macro_precision = np_mean (precision pc),
                 macro_recall = np_mean (recall pc),
                 macro_f1_score = np_mean (f1_score pc),
                 macro_balanced_accuracy = np_mean (balanced_accuracy pc),
                 macro_weighted_accuracy = np_mean (weighted_accuracy pc),
                 macro_mcc = np_mean (mcc pc),
                 weighted_precision = avg_p,
                 weighted_recall = avg_r,
                 weighted_f1_score = avg_f,
                 weighted_balanced_accuracy = avg_b,
                 weighted_weighted_accuracy = avg_w,
                 weighted_mcc = avg_m\<rparr>\<rparr>)"
    unfolding acc_def
    by (simp add: calculate_classification_metrics_def arr Inr Let_def del: class_loop.simps)
  show ?thesis
  proof (cases "class_loop a (np_sum_all a) [0..<length a] empty_per_class")
    case (Inl e)
    have "fst (class_loop_st cm metrics (np_sum_all a) [0..<length a] h3) = Some e"
      using o3 Inl by (intro class_loop_st_error [where a = a and d = d3]) (simp_all add: p3)
    then have "res = Inl e" using run' by (auto split: prod.splits option.splits)
    then show ?thesis by (simp add: pure Inl)
  next
    case (Inr pc)
    define d4 where "d4 = d3\<lparr>per_class := pc\<rparr>"
    define h4 where "h4 = h3\<lparr>objs := (objs h3)(metrics := Metrics d4)\<rparr>"
    have l: "class_loop_st cm metrics (np_sum_all a) [0..<length a] h3 = (None, h4)"
      unfolding h4_def d4_def using o3 Inr
      by (intro class_loop_st_ok [where a = a]) (simp_all add: p3)
    define d5 where "d5 = d4\<lparr>overall := (overall d4)
       \<lparr>macro_precision := np_mean (precision pc),
        macro_recall := np_mean (recall pc),
        macro_f1_score := np_mean (f1_score pc),
        macro_balanced_accuracy := np_mean (balanced_accuracy pc),
        macro_weighted_accuracy := np_mean (weighted_accuracy pc),
        macro_mcc := np_mean (mcc pc)\<rparr>\<rparr>"
    define h5 where "h5 = h4\<lparr>objs := (objs h4)(metrics := Metrics d5)\<rparr>"
    have o4: "objs h4 metrics = Metrics d4" by (simp add: h4_def)
    have sm: "store_macro h4 metrics = h5"
      using o4 by (simp add: store_macro_def modify_metrics_at h5_def d5_def d4_def)
    have o5: "objs h5 metrics = Metrics d5" by (simp add: h5_def)
    have p5: "per_class d5 = pc" by (simp add: d5_def d4_def)
    have run'': "(case store_all_weighted h5 metrics class_samples weighted_entries of
                 (Some e, h5) \<Rightarrow> (Inl e, h5)
               | (None, h5) \<Rightarrow> (Inr metrics, h5)) = (res, h')"
      using run' by (simp add: l sm)
    show ?thesis
    proof (cases "weighted_averages pc class_samples")
      case (Inl e)
      have "fst (store_all_weighted h5 metrics class_samples weighted_entries) = Some e"
        using o5 Inl by (intro store_all_weighted_error [where d = d5]) (simp_all add: p5)
      then have "res = Inl e" using run'' by (auto split: prod.splits option.splits)
      then show ?thesis by (simp add: pure \<open>class_loop a (np_sum_all a) [0..<length a] empty_per_class = Inr pc\<close> Inl)
    next
      case (Inr t)
      obtain avg_p avg_r avg_f avg_b avg_w avg_m where t: "t = (avg_p, avg_r, avg_f, avg_b, avg_w, avg_m)"
        by (cases t) auto
      define d6 where "d6 = d5\<lparr>overall := (overall d5)
       \<lparr>weighted_precision := avg_p, weighted_recall := avg_r, weighted_f1_score := avg_f,
        weighted_balanced_accuracy := avg_b, weighted_weighted_accuracy := avg_w,
        weighted_mcc := avg_m\<rparr>\<rparr>"
      have "store_all_weighted h5 metrics class_samples weighted_entries =
          (None, h5\<lparr>objs := (objs h5)(metrics := Metrics d6)\<rparr>)"
        unfolding d6_def using o5 Inr
        by (intro store_all_weighted_ok) (simp_all add: p5 t)
      then have res: "res = Inr metrics" and h': "h' = h5\<lparr>objs := (objs h5)(metrics := Metrics d6)\<rparr>"
        using run'' by simp_all
      have "objs h' metrics = Metrics d6" by (simp add: h')
      moreover have "calculate_classification_metrics m = Inr d6"
        by (simp add: pure \<open>class_loop a (np_sum_all a) [0..<length a] empty_per_class = Inr pc\<close>
            Inr t d6_def d5_def d4_def d3_def initial_metrics_def)
      ultimately show ?thesis using res by simp
    qed
  qed
qed

lemma calculate_st_refines:
  assumes "objs h confusion_matrix = Matrix m"
    and "calculate_classification_metrics_st confusion_matrix h = (res, h')"
  shows "case calculate_classification_metrics m of
           Inl e \<Rightarrow> res = Inl e
         | Inr r \<Rightarrow> res = Inr (Suc (next_addr h)) \<and> objs h' (Suc (next_addr h)) = Metrics r"
proof (cases "np_array m")
  case (Inl e)
  then show ?thesis
    using assms
    by (simp add: calculate_classification_metrics_st_def calculate_classification_metrics_def)
next
  case (Inr a)
  define h2 where "h2 = h\<lparr>objs := (objs h)(next_addr h := Matrix a,
    Suc (next_addr h) := Metrics initial_metrics), next_addr := Suc (Suc (next_addr h))\<rparr>"
  have "fill_metrics (next_addr h) (Suc (next_addr h)) h2 = (res, h')"
    using assms Inr
    by (simp add: calculate_classification_metrics_st_def new_object_def h2_def)
  moreover have "objs h2 (next_addr h) = Matrix a" "objs h2 (Suc (next_addr h)) = Metrics initial_metrics"
    by (simp_all add: h2_def)
  ultimately show ?thesis
    using Inr by (intro fill_metrics_refines [where a = a and h = h2]) simp_all
qed

section \<open>The claims\<close>

subsection \<open>C1: the per-class metrics and the reference algorithm\<close>




subsection \<open>C2: macro and weighted averages\<close>




subsection \<open>C3: matrices that are not square\<close>

text \<open>
  C3, as stated: a matrix that is not square, or that has no rows or no columns, makes
  the call fail with \<^verbatim>\<open>InvalidMatrixError\<close>, and no result is returned. The
  source has no such error and never looks at the shape: on the \<open>2 \<times> 3\<close> matrix
  below the call returns a result.
\<close>

theorem no_shape_check_counterexample:
  "\<not> square ([[1, 0, 0], [0, 1, 0]] :: int64 list list) \<and> \<not> isl (calculate_classification_metrics [[1, 0, 0], [0, 1, 0]])"
  by (simp add: square_def eval_defs)

text \<open>
  C3, amended, for a nested list of 64-bit integers: the call does not check the shape
  and has no error of its own. Rows of different lengths end in the \<^verbatim>\<open>ValueError\<close>
  of \<^verbatim>\<open>np.array\<close>; the empty list (no rows) ends in the \<^verbatim>\<open>AxisError\<close> of the sum
  along axis 1; more rows than columns (also rows without columns) end in the
  \<^verbatim>\<open>IndexError\<close> of the read of the diagonal. A matrix with fewer rows than columns
  whose entries are non-negative and sum to less than \<open>2 ^ 63\<close> gives a
  \<^verbatim>\<open>ZeroDivisionError\<close> when all entries are zero and else a result, in which one
  class stands for each row and the columns beyond the rows count in the row sums and
  the total only.
\<close>

theorem no_shape_check:
  "(\<not> rectangular m \<longrightarrow> calculate_classification_metrics m = Inl ValueError) \<and>
   (m = [] \<longrightarrow> calculate_classification_metrics m = Inl AxisError) \<and>
   (rectangular m \<and> ncols m < length m \<longrightarrow> calculate_classification_metrics m = Inl IndexError) \<and>
   (rectangular m \<and> m \<noteq> [] \<and> length m < ncols m \<and> nonneg m \<and> exact_total (ints m) = 0 \<longrightarrow>
      calculate_classification_metrics m = Inl ZeroDivisionError) \<and>
   (rectangular m \<and> m \<noteq> [] \<and> length m < ncols m \<and> nonneg m \<and>
    exact_total (ints m) \<noteq> 0 \<and> exact_total (ints m) < 2 ^ 63 \<longrightarrow>
      calculate_classification_metrics m = Inr \<lparr>per_class = per_class_of m, overall = overall_of m\<rparr>)"
proof -
  have "m = [] \<Longrightarrow> rectangular m" by (simp add: rectangular_def)
  moreover have "ncols m < length m \<Longrightarrow> m \<noteq> []" by auto
  moreover have "weights_total m = 0" if "nonneg m" "exact_total (ints m) = 0"
    using weights_total_exact [OF that(1)] that(2) by simp
  moreover have "weights_total m \<noteq> 0"
    if "nonneg m" "exact_total (ints m) \<noteq> 0" "exact_total (ints m) < 2 ^ 63"
    using weights_total_exact [OF that(1,3)] that(2) by simp
  ultimately show ?thesis by (auto simp: calculate_cases)
qed

theorem no_shape_check_witness:
  "calculate_classification_metrics [[1, 2], [3]] = Inl ValueError \<and>
   calculate_classification_metrics [] = Inl AxisError \<and>
   calculate_classification_metrics [[1, 2], [3, 4], [5, 6]] = Inl IndexError \<and>
   calculate_classification_metrics [[]] = Inl IndexError \<and>
   calculate_classification_metrics [[0, 0, 0], [0, 0, 0]] = Inl ZeroDivisionError \<and>
   \<not> isl (calculate_classification_metrics [[1, 2, 3], [4, 5, 6]])"
  using no_shape_check [of "[[1, 2], [3]]"] no_shape_check [of "[]"]
    no_shape_check [of "[[1, 2], [3, 4], [5, 6]]"] no_shape_check [of "[[]]"]
    no_shape_check [of "[[0, 0, 0], [0, 0, 0]]"] no_shape_check [of "[[1, 2, 3], [4, 5, 6]]"]
  by (simp add: rectangular_def ncols_def nonneg_def exact_total_def ints_def)

subsection \<open>C4: no samples at all\<close>

text \<open>
  C4: a square matrix of non-negative integers whose total is zero, or in which a
  class has no samples, does not make the call raise a division by zero, and the call
  returns a complete result. On the \<open>2 \<times> 2\<close> matrix of zeros the call raises
  \<^verbatim>\<open>ZeroDivisionError\<close>: five divisions of the loop are guarded against a zero
  denominator, the divisions by the total and the weighted averages are not.
\<close>

theorem zero_total_raises:
  "calculate_classification_metrics [[0, 0], [0, 0]] = Inl ZeroDivisionError"
  by (simp add: eval_defs)

subsection \<open>C5: the overall accuracy\<close>

text \<open>
  C5, as stated: for every confusion matrix (its entries are counts) on which the call
  succeeds, the returned accuracy is the trace of the matrix divided by the sum of all
  its entries, and it lies between 0 and 1. On the \<open>2 \<times> 2\<close> matrix whose entries are
  all \<open>2 ^ 62\<close> the call succeeds and the accuracy is \<open>-inf\<close>: the \<^verbatim>\<open>int64\<close> total is
  \<open>2 ^ 64\<close>, which is 0, and the \<^verbatim>\<open>int64\<close> trace is \<open>- 2 ^ 63\<close>.
\<close>

theorem accuracy_trace_over_total_counterexample:
  "nonneg [[4611686018427387904, 4611686018427387904], [4611686018427387904, 4611686018427387904]] \<and>
   \<not> isl (calculate_classification_metrics
     [[4611686018427387904, 4611686018427387904], [4611686018427387904, 4611686018427387904]]) \<and>
   accuracy (overall (projr (calculate_classification_metrics
     [[4611686018427387904, 4611686018427387904], [4611686018427387904, 4611686018427387904]]))) = NInf"
  by (simp add: nonneg_def eval_defs)

text \<open>
  C5, amended: for every matrix of non-negative 64-bit integers that sum to less than
  \<open>2 ^ 63\<close> and on which the call succeeds, the returned accuracy is the trace of the
  matrix divided by the sum of all its entries, and it lies between 0 and 1.
\<close>

theorem accuracy_trace_over_total:
  assumes "nonneg m" and "exact_total (ints m) < 2 ^ 63"
    and "calculate_classification_metrics m = Inr r"
  shows "accuracy (overall r) =
           Fin (real_of_int (exact_trace (ints m)) / real_of_int (exact_total (ints m))) \<and>
         0 \<le> real_of_int (exact_trace (ints m)) / real_of_int (exact_total (ints m)) \<and>
         real_of_int (exact_trace (ints m)) / real_of_int (exact_total (ints m)) \<le> 1"
proof -
  note s = calculate_success [OF assms(3)]
  have pos: "0 < exact_total (ints m)"
    using assms(3,1,2) by (rule success_total)
  have t: "0 \<le> exact_trace (ints m)" "exact_trace (ints m) \<le> exact_total (ints m)"
    using trace_bounds [of "ints m"] s(1,3) assms(1) by (simp_all add: ints_nonneg)
  have "accuracy (overall r) =
      Fin (real_of_int (exact_trace (ints m)) / real_of_int (exact_total (ints m)))"
    using accuracy_exact [OF s(1) assms(1) s(3) assms(2)] pos s(5) by simp
  moreover have "0 \<le> real_of_int (exact_trace (ints m)) / real_of_int (exact_total (ints m))"
    using t(1) pos by simp
  moreover have "real_of_int (exact_trace (ints m)) / real_of_int (exact_total (ints m)) \<le> 1"
    using t(2) pos by simp
  ultimately show ?thesis by simp
qed

theorem accuracy_trace_over_total_witness:
  "nonneg [[3, 1], [1, 3]] \<and> exact_total (ints [[3, 1], [1, 3]]) < 2 ^ 63 \<and>
   (\<exists>r. calculate_classification_metrics [[3, 1], [1, 3]] = Inr r \<and>
      accuracy (overall r) = Fin (3 / 4) \<and> exact_trace (ints [[3, 1], [1, 3]]) = 6 \<and>
      exact_total (ints [[3, 1], [1, 3]]) = 8)"
proof -
  let ?m = "[[3, 1], [1, 3]] :: int64 list list"
  have n: "nonneg ?m" by (simp add: nonneg_def)
  have v: "exact_trace (ints ?m) = 6" "exact_total (ints ?m) = 8"
    by (simp_all add: exact_trace_def ncols_def exact_total_def ints_def upt_rec)
  have b: "exact_total (ints ?m) < 2 ^ 63" by (simp add: v)
  obtain r where r: "calculate_classification_metrics ?m = Inr r"
    using example_exact by simp
  from accuracy_trace_over_total [OF n b r] have "accuracy (overall r) = Fin (3 / 4)"
    by (simp add: v)
  with n b r v show ?thesis by blast
qed

subsection \<open>C6: every scalar is finite and in its range\<close>




subsection \<open>C7: diagonal matrices\<close>

text \<open>
  C7, as stated: for every square matrix of non-negative integers whose entries off
  the diagonal are zero, the accuracy is 1, and every class with a non-zero row sum
  has precision, recall and f1 equal to 1 and mcc equal to 1. On \<open>[[5]]\<close> the only
  class has a non-zero row sum and its mcc is 0: \<open>tn = 0\<close> makes the denominator of
  the mcc zero, and the guard of the source substitutes 0. On the diagonal matrix of
  zeros the call returns no accuracy at all. On \<open>[[65536, 0], [0, 65536]]\<close> both
  classes have samples and a mcc of 0: the product under the square root is \<open>2 ^ 64\<close>,
  which is 0 as an \<^verbatim>\<open>int64\<close>.
\<close>

theorem diagonal_matrix_counterexample:
  "square ([[5]] :: int64 list list) \<and> nonneg [[5]] \<and> diagonal ([[5]] :: int64 list list) \<and> exact_row_sum (ints [[5]]) 0 \<noteq> 0 \<and>
   \<not> isl (calculate_classification_metrics [[5]]) \<and>
   mcc (per_class (projr (calculate_classification_metrics [[5]]))) ! 0 = Fin 0 \<and>
   square ([[0, 0], [0, 0]] :: int64 list list) \<and> nonneg [[0, 0], [0, 0]] \<and> diagonal ([[0, 0], [0, 0]] :: int64 list list) \<and>
   isl (calculate_classification_metrics [[0, 0], [0, 0]]) \<and>
   square ([[65536, 0], [0, 65536]] :: int64 list list) \<and> nonneg [[65536, 0], [0, 65536]] \<and>
   diagonal ([[65536, 0], [0, 65536]] :: int64 list list) \<and>
   exact_row_sum (ints [[65536, 0], [0, 65536]]) 0 \<noteq> 0 \<and>
   exact_row_sum (ints [[65536, 0], [0, 65536]]) 0 \<noteq> exact_total (ints [[65536, 0], [0, 65536]]) \<and>
   \<not> isl (calculate_classification_metrics [[65536, 0], [0, 65536]]) \<and>
   mcc (per_class (projr (calculate_classification_metrics [[65536, 0], [0, 65536]]))) ! 0 = Fin 0"
  by (simp add: square_def nonneg_def diagonal_def exact_row_sum_def exact_total_def ints_def
      eval_defs)

text \<open>
  C7, amended: for every square matrix of non-negative 64-bit integers whose entries
  off the diagonal are zero and which has a non-zero entry, and in which the total of
  the entries and, for each class, the product under the square root of the mcc are
  below \<open>2 ^ 63\<close>, the accuracy is 1, and every class with a non-zero row sum has
  precision, recall and f1 equal to 1; its mcc is 1 when some other class has samples
  too, and 0 when the class holds all the samples.
\<close>

theorem diagonal_matrix:
  assumes "square m" and "nonneg m" and "diagonal m" and "no_wrap m"
    and "exact_total (ints m) \<noteq> 0"
  shows "\<exists>r. calculate_classification_metrics m = Inr r \<and>
    accuracy (overall r) = Fin 1 \<and>
    (\<forall>c < length m. exact_row_sum (ints m) c \<noteq> 0 \<longrightarrow>
       precision (per_class r) ! c = Fin 1 \<and>
       recall (per_class r) ! c = Fin 1 \<and>
       f1_score (per_class r) ! c = Fin 1 \<and>
       mcc (per_class r) ! c =
         (if exact_row_sum (ints m) c = exact_total (ints m) then Fin 0 else Fin 1))"
proof -
  note t = no_wrap_total [OF assms(4)]
  have ne: "m \<noteq> []" using assms(5) by (auto simp: exact_total_def ints_def)
  have r: "calculate_classification_metrics m =
      Inr \<lparr>per_class = per_class_of m, overall = overall_of m\<rparr>"
    using assms(1) ne assms(2) t assms(5) by (rule calculate_square)
  have acc: "accuracy (overall_of m) = Fin 1"
    using assms(1,2,3) t assms(5) by (rule diagonal_accuracy)
  have cls: "precision (per_class_of m) ! c = Fin 1 \<and>
       recall (per_class_of m) ! c = Fin 1 \<and>
       f1_score (per_class_of m) ! c = Fin 1 \<and>
       mcc (per_class_of m) ! c =
         (if exact_row_sum (ints m) c = exact_total (ints m) then Fin 0 else Fin 1)"
    if "c < length m" "exact_row_sum (ints m) c \<noteq> 0" for c
    using that diagonal_scores_of [OF assms(1,2,3,4) that] by (simp add: per_class_of_def)
  show ?thesis using r acc cls by simp
qed

theorem diagonal_matrix_witness:
  "square ([[2, 0], [0, 3]] :: int64 list list) \<and> nonneg [[2, 0], [0, 3]] \<and> diagonal ([[2, 0], [0, 3]] :: int64 list list) \<and>
   no_wrap [[2, 0], [0, 3]] \<and> exact_total (ints [[2, 0], [0, 3]]) \<noteq> 0 \<and>
   exact_row_sum (ints [[2, 0], [0, 3]]) 0 \<noteq> 0 \<and>
   (\<exists>r. calculate_classification_metrics [[2, 0], [0, 3]] = Inr r \<and>
      accuracy (overall r) = Fin 1 \<and>
      precision (per_class r) ! 0 = Fin 1 \<and>
      recall (per_class r) ! 0 = Fin 1 \<and>
      f1_score (per_class r) ! 0 = Fin 1 \<and>
      mcc (per_class r) ! 0 = Fin 1)"
proof -
  let ?m = "[[2, 0], [0, 3]] :: int64 list list"
  have h: "square ?m" "nonneg ?m" "diagonal ?m" "no_wrap ?m" "exact_total (ints ?m) \<noteq> 0"
    by (simp_all add: square_def nonneg_def diagonal_def no_wrap_def exact_total_def
        exact_radicand_def exact_column_sum_def exact_row_sum_def ints_def upt_rec)
  have c: "(0::nat) < length ?m" "exact_row_sum (ints ?m) 0 \<noteq> 0"
    "exact_row_sum (ints ?m) 0 \<noteq> exact_total (ints ?m)"
    by (simp_all add: exact_row_sum_def exact_total_def ints_def)
  from diagonal_matrix [OF h] c show ?thesis
    using h by auto
qed

subsection \<open>C8: the matrix of total confusion\<close>

text \<open>
  C8, as stated: on \<open>[[0,1],[1,0]]\<close> the accuracy is 0, precision, recall and f1 of
  both classes are 0, and the mcc of both classes is \<open>-0.5\<close>. The mcc is not
  \<open>-0.5\<close>: the call returns, and the list of the per-class mcc differs from
  \<open>[-0.5, -0.5]\<close>.
\<close>

theorem total_confusion_mcc_counterexample:
  "\<not> isl (calculate_classification_metrics [[0, 1], [1, 0]]) \<and>
   mcc (per_class (projr (calculate_classification_metrics [[0, 1], [1, 0]])))
     \<noteq> [Fin (- 1 / 2), Fin (- 1 / 2)]"
  by (simp add: eval_defs)

text \<open>
  C8, amended: on \<open>[[0,1],[1,0]]\<close> the accuracy is 0, precision, recall and f1 of
  both classes are 0, and the mcc of both classes is \<open>-1\<close>. For each class
  \<open>tp = 0\<close>, \<open>fp = 1\<close>, \<open>fn = 1\<close> and \<open>tn = 2 - (0 + 1 + 1) = 0\<close>, so the
  denominator is \<open>sqrt (1 * 1 * 1 * 1) = 1\<close> and the numerator \<open>0 * 0 - 1 * 1 = -1\<close>.
  The theorem gives the whole result.
\<close>

theorem total_confusion:
  "calculate_classification_metrics [[0, 1], [1, 0]] =
     Inr \<lparr>per_class =
            \<lparr>precision = [Fin 0, Fin 0], recall = [Fin 0, Fin 0], f1_score = [Fin 0, Fin 0],
             balanced_accuracy = [Fin 0, Fin 0], weighted_accuracy = [Fin 0, Fin 0],
             mcc = [Fin (- 1), Fin (- 1)]\<rparr>,
          overall =
            \<lparr>accuracy = Fin 0,
             macro_precision = Fin 0, macro_recall = Fin 0, macro_f1_score = Fin 0,
             macro_balanced_accuracy = Fin 0, macro_weighted_accuracy = Fin 0,
             macro_mcc = Fin (- 1),
             weighted_precision = Fin 0, weighted_recall = Fin 0, weighted_f1_score = Fin 0,
             weighted_balanced_accuracy = Fin 0, weighted_weighted_accuracy = Fin 0,
             weighted_mcc = Fin (- 1)\<rparr>\<rparr>"
  by (simp add: eval_defs)

subsection \<open>C9: the input is not mutated\<close>

text \<open>
  C9: the call does not mutate its input and has no other effect on the store. On
  the store, with the argument the address of a matrix in use: after the call the
  matrix at that address is the one that was there, every object that was in use is
  unchanged, and the outcome depends on the matrix alone, as it is the exception of
  the function on values or the address of a new dictionary that holds its result.
\<close>

theorem input_not_mutated:
  assumes "objs h confusion_matrix = Matrix m" and "confusion_matrix < next_addr h"
    and "calculate_classification_metrics_st confusion_matrix h = (res, h')"
  shows "objs h' confusion_matrix = Matrix m \<and>
         (\<forall>b < next_addr h. objs h' b = objs h b) \<and>
         (case calculate_classification_metrics m of
            Inl e \<Rightarrow> res = Inl e
          | Inr r \<Rightarrow> \<exists>d. res = Inr d \<and> next_addr h \<le> d \<and> objs h' d = Metrics r)"
proof -
  have f: "\<forall>b < next_addr h. objs h' b = objs h b"
    using assms(3) by (rule calculate_st_frame)
  then have "objs h' confusion_matrix = Matrix m"
    using assms(1,2) by simp
  moreover have "case calculate_classification_metrics m of
            Inl e \<Rightarrow> res = Inl e
          | Inr r \<Rightarrow> \<exists>d. res = Inr d \<and> next_addr h \<le> d \<and> objs h' d = Metrics r"
    using calculate_st_refines [OF assms(1,3)] by (auto split: sum.splits)
  ultimately show ?thesis using f by blast
qed

theorem input_not_mutated_witness:
  "\<exists>res h'.
     calculate_classification_metrics_st 0
       \<lparr>objs = (\<lambda>_. Matrix [])(0 := Matrix [[2, 1], [1, 2]]), next_addr = 1\<rparr> = (res, h') \<and>
     objs h' 0 = Matrix [[2, 1], [1, 2]] \<and>
     (\<exists>d. res = Inr d \<and> 1 \<le> d \<and>
        map_option (\<lambda>r. accuracy (overall r)) (read_metrics h' d) = Some (Fin (2 / 3)))"
proof -
  let ?m = "[[2, 1], [1, 2]] :: int64 list list"
  let ?h = "\<lparr>objs = (\<lambda>_. Matrix [])(0 := Matrix ?m), next_addr = 1\<rparr>"
  obtain res h' where run: "calculate_classification_metrics_st 0 ?h = (res, h')"
    by (cases "calculate_classification_metrics_st 0 ?h")
  have o: "objs ?h 0 = Matrix ?m" and a: "0 < next_addr ?h" by simp_all
  from input_not_mutated [OF o a run]
  have "objs h' 0 = Matrix ?m"
    and "\<exists>d. res = Inr d \<and> 1 \<le> d \<and>
        map_option (\<lambda>r. accuracy (overall r)) (read_metrics h' d) = Some (Fin (2 / 3))"
    by (auto simp: example_result read_metrics_def)
  with run show ?thesis by blast
qed

subsection \<open>C10: the six lists are aligned with the classes\<close>



end
